theory Spec2Isabelle
  imports Main "HOL-Library.Word"
begin

unbundle bit_operations_syntax

section \<open>Data model\<close>

type_synonym byte = "8 word"
type_synonym u64 = "64 word"
type_synonym bytes = "byte list"

text \<open>A \<open>common.Hash\<close> is kept as the list of its bytes.\<close>

type_synonym hash = bytes

text \<open>
  Errors of the Go code are values.  \<open>ErrExternal\<close> stands for any error handed back
  by a collaborator (the inbox backend, a DAS or blob reader); \<open>ErrGetBlobs\<close> wraps
  the error of the blob reader.  \<open>CritExit\<close> records that \<open>log.Crit\<close> ended the process
  and \<open>Panic\<close> a run-time panic (nil dereference, index out of range): neither is an
  error value the Go functions return, both end the call.
\<close>

datatype error =
    ErrMissingHeader
  | ErrFatalNodeOutOfDate byte
  | ErrNoBlobReader
  | ErrBlobNotHashes
  | ErrGetBlobs error
  | ErrHashMismatch
  | ErrExternal string
  | CritExit
  | Panic

record sequencerMessage =
  minTimestamp :: u64
  maxTimestamp :: u64
  minL1Block :: u64
  maxL1Block :: u64
  afterDelayedMessages :: u64
  segments :: "bytes list"

record L1IncomingMessageHeader =
  Kind :: byte
  Poster :: bytes
  BlockNumber :: u64
  Timestamp :: u64
  RequestId :: "hash option"
  L1BaseFee :: "int option"

record L1IncomingMessage =
  Header :: L1IncomingMessageHeader
  L2msg :: bytes

record MessageWithMetadata =
  Message :: L1IncomingMessage
  DelayedMessagesRead :: u64

datatype KeysetValidationMode = KeysetValidate | KeysetPanicIfInvalid | KeysetDontValidate

text \<open>
  A \<open>DataAvailabilityProvider\<close>: the two methods of the interface.  The result of
  \<open>RecoverPayloadFromBatch\<close> is \<open>Inl err\<close> for a non-nil error, \<open>Inr None\<close> for
  \<open>(nil, nil)\<close> and \<open>Inr (Some p)\<close> for a payload.  The parser always passes
  \<open>preimages = nil\<close>, so the method is taken at that argument.
\<close>

record DataAvailabilityProvider =
  IsValidHeaderByte :: "byte \<Rightarrow> bool"
  RecoverPayloadFromBatch ::
    "u64 \<Rightarrow> hash \<Rightarrow> bytes \<Rightarrow> KeysetValidationMode \<Rightarrow> error + bytes option"

text \<open>
  The functions and constants the package takes from elsewhere (header-byte
  classifiers, the zero-heavy, brotli and RLP decoders, constants of \<open>arbostypes\<close> and
  \<open>l1pricing\<close>) are parameters of the model.  \<open>zeroheavyReadAll p n\<close> is what
  \<open>io.ReadAll\<close> gives on the zero-heavy decoder of \<open>p\<close> limited to \<open>n\<close> bytes,
  \<open>Decompress p n\<close> is \<open>arbcompress.Decompress\<close>, \<open>rlpDecodeSegments d\<close> is the list
  of byte strings that successive \<open>stream.Decode\<close> calls return before the first error,
  and \<open>rlpUint64 s\<close> is \<open>rlp.NewStream(s, 16).Uint64()\<close>; \<open>None\<close> is an error.
\<close>

record env =
  IsL1AuthenticatedMessageHeaderByte :: "byte \<Rightarrow> bool"
  IsKnownHeaderByte :: "byte \<Rightarrow> bool"
  IsDASMessageHeaderByte :: "byte \<Rightarrow> bool"
  IsBlobHashesHeaderByte :: "byte \<Rightarrow> bool"
  IsZeroheavyEncodedHeaderByte :: "byte \<Rightarrow> bool"
  IsBrotliMessageHeaderByte :: "byte \<Rightarrow> bool"
  zeroheavyReadAll :: "bytes \<Rightarrow> int \<Rightarrow> bytes option"
  Decompress :: "bytes \<Rightarrow> int \<Rightarrow> bytes option"
  rlpDecodeSegments :: "bytes \<Rightarrow> bytes list"
  rlpUint64 :: "bytes \<Rightarrow> u64 option"
  MaxL2MessageSize :: int
  L1MessageType_L2Message :: byte
  BatchPosterAddress :: bytes
  InvalidL1Message :: L1IncomingMessage

definition MaxDecompressedLen :: int where
  "MaxDecompressedLen = 1024 * 1024 * 16"

definition maxZeroheavyDecompressedLen :: int where
  "maxZeroheavyDecompressedLen = 101 * MaxDecompressedLen div 100 + 64"

definition MaxSegmentsPerSequencerMessage :: int where
  "MaxSegmentsPerSequencerMessage = 100 * 1024"

definition MinLifetimeSecondsForDataAvailabilityCert :: u64 where
  "MinLifetimeSecondsForDataAvailabilityCert = 7 * 24 * 60 * 60"

definition BatchSegmentKindL2Message :: byte where
  "BatchSegmentKindL2Message = 0"

definition BatchSegmentKindL2MessageBrotli :: byte where
  "BatchSegmentKindL2MessageBrotli = 1"

definition BatchSegmentKindDelayedMessages :: byte where
  "BatchSegmentKindDelayedMessages = 2"

definition BatchSegmentKindAdvanceTimestamp :: byte where
  "BatchSegmentKindAdvanceTimestamp = 3"

definition BatchSegmentKindAdvanceL1BlockNumber :: byte where
  "BatchSegmentKindAdvanceL1BlockNumber = 4"

section \<open>The sequencer message parser\<close>

text \<open>\<open>binary.BigEndian.Uint64\<close> on a slice of eight bytes.\<close>

definition Uint64 :: "bytes \<Rightarrow> u64" where
  "Uint64 b = foldl (\<lambda>acc x. push_bit 8 acc OR ucast x) 0 (take 8 b)"

text \<open>
  The loop over \<open>daProviders\<close>: the first non-nil provider that accepts the header
  byte is asked for the payload and the loop ends; \<open>None\<close> means that no provider
  accepted the byte (\<open>foundDA\<close> stays false).
\<close>

fun tryProviders ::
  "DataAvailabilityProvider option list \<Rightarrow> byte \<Rightarrow> u64 \<Rightarrow> hash \<Rightarrow> bytes \<Rightarrow>
     KeysetValidationMode \<Rightarrow> (error + bytes option) option" where
  "tryProviders [] b batchNum batchBlockHash data mode = None"
| "tryProviders (None # ps) b batchNum batchBlockHash data mode =
     tryProviders ps b batchNum batchBlockHash data mode"
| "tryProviders (Some provider # ps) b batchNum batchBlockHash data mode =
     (if IsValidHeaderByte provider b
      then Some (RecoverPayloadFromBatch provider batchNum batchBlockHash data mode)
      else tryProviders ps b batchNum batchBlockHash data mode)"

text \<open>
  The segment loop of stage 3 over the items the RLP stream yields: it ends when the
  stream fails (no item left) or when the list already holds the maximum.
\<close>

fun fillSegments :: "bytes list \<Rightarrow> bytes list \<Rightarrow> bytes list" where
  "fillSegments segs [] = segs"
| "fillSegments segs (segment # items) =
     (if int (length segs) \<ge> MaxSegmentsPerSequencerMessage then segs
      else fillSegments (segs @ [segment]) items)"

text \<open>Stage 3: the brotli payload fills the segment list; anything else is only logged.\<close>

definition parseStage3 :: "env \<Rightarrow> sequencerMessage \<Rightarrow> bytes \<Rightarrow> sequencerMessage" where
  "parseStage3 E parsedMsg payload =
     (if payload \<noteq> [] \<and> IsBrotliMessageHeaderByte E (hd payload) then
        (case Decompress E (tl payload) MaxDecompressedLen of
           Some decompressed \<Rightarrow>
             parsedMsg\<lparr>segments := fillSegments (segments parsedMsg) (rlpDecodeSegments E decompressed)\<rparr>
         | None \<Rightarrow> parsedMsg)
      else parsedMsg)"

text \<open>Stage 2: an optional zero-heavy layer; a decoding error returns the header-only message.\<close>

definition parseStage2 :: "env \<Rightarrow> sequencerMessage \<Rightarrow> bytes \<Rightarrow> sequencerMessage" where
  "parseStage2 E parsedMsg payload =
     (if payload \<noteq> [] \<and> IsZeroheavyEncodedHeaderByte E (hd payload) then
        (case zeroheavyReadAll E (tl payload) maxZeroheavyDecompressedLen of
           None \<Rightarrow> parsedMsg
         | Some pl \<Rightarrow> parseStage3 E parsedMsg pl)
      else parseStage3 E parsedMsg payload)"

text \<open>
  Stage 1: the data availability header.  The result is an error, or the message
  returned early (\<open>Inr (Inl m)\<close>), or the payload to go on with (\<open>Inr (Inr p)\<close>).
\<close>

definition parseStage1 ::
  "env \<Rightarrow> sequencerMessage \<Rightarrow> u64 \<Rightarrow> hash \<Rightarrow> bytes \<Rightarrow> DataAvailabilityProvider option list \<Rightarrow>
     KeysetValidationMode \<Rightarrow> bytes \<Rightarrow> error + (sequencerMessage + bytes)" where
  "parseStage1 E parsedMsg batchNum batchBlockHash data daProviders mode payload =
     (if payload \<noteq> [] then
        (case tryProviders daProviders (hd payload) batchNum batchBlockHash data mode of
           Some (Inl err) \<Rightarrow> Inl err
         | Some (Inr None) \<Rightarrow> Inr (Inl parsedMsg)
         | Some (Inr (Some p)) \<Rightarrow> Inr (Inr p)
         | None \<Rightarrow>
             (if IsDASMessageHeaderByte E (hd payload) then Inr (Inr payload)
              else if IsBlobHashesHeaderByte E (hd payload) then Inl ErrNoBlobReader
              else Inr (Inr payload)))
      else Inr (Inr payload))"

text \<open>The struct that the parser fills from the 40 header bytes, with no segments yet.\<close>

definition parseHeader :: "bytes \<Rightarrow> sequencerMessage" where
  "parseHeader data =
     \<lparr>minTimestamp = Uint64 (take 8 data),
      maxTimestamp = Uint64 (take 8 (drop 8 data)),
      minL1Block = Uint64 (take 8 (drop 16 data)),
      maxL1Block = Uint64 (take 8 (drop 24 data)),
      afterDelayedMessages = Uint64 (take 8 (drop 32 data)),
      segments = []\<rparr>"

definition parseSequencerMessage ::
  "env \<Rightarrow> u64 \<Rightarrow> hash \<Rightarrow> bytes \<Rightarrow> DataAvailabilityProvider option list \<Rightarrow>
     KeysetValidationMode \<Rightarrow> error + sequencerMessage" where
  "parseSequencerMessage E batchNum batchBlockHash data daProviders mode =
     (if length data < 40 then Inl ErrMissingHeader
      else
        let parsedMsg = parseHeader data;
            payload = drop 40 data
        in if payload \<noteq> [] \<and> IsL1AuthenticatedMessageHeaderByte E (hd payload)
              \<and> \<not> IsKnownHeaderByte E (hd payload)
           then Inl (ErrFatalNodeOutOfDate (hd payload))
           else
             (case parseStage1 E parsedMsg batchNum batchBlockHash data daProviders mode payload of
                Inl err \<Rightarrow> Inl err
              | Inr (Inl early) \<Rightarrow> Inr early
              | Inr (Inr payload') \<Rightarrow> Inr (parseStage2 E parsedMsg payload')))"

section \<open>The built-in data availability providers\<close>

record DataAvailabilityCertificate =
  KeysetHash :: hash
  DataHash :: hash
  Timeout :: u64
  SignersMask :: u64
  Sig :: bytes
  Version :: byte

datatype DataAvailabilityKeyset = Keyset bytes

text \<open>
  The collaborators of the DAS path: certificate and keyset decoding, the hash
  functions of \<open>dastree\<close> and \<open>crypto\<close>, signature verification (\<open>True\<close> when
  \<open>VerifySignature\<close> returns no error), the key/value pairs that \<open>dastree.RecordHash\<close>
  hands to its callback, and \<open>blobs.DecodeBlobs\<close>.
\<close>

record dasenv =
  DeserializeDASCertFrom :: "bytes \<Rightarrow> DataAvailabilityCertificate option"
  FlatHashToTreeHash :: "hash \<Rightarrow> hash"
  FlatHashToTreeLeaf :: "hash \<Rightarrow> bytes"
  Keccak256Hash :: "bytes \<Rightarrow> hash"
  dastreeHash :: "bytes \<Rightarrow> hash"
  dastreeRecordHash :: "bytes \<Rightarrow> (hash \<times> bytes) list"
  DeserializeKeyset :: "bytes \<Rightarrow> bool \<Rightarrow> DataAvailabilityKeyset option"
  VerifySignature :: "DataAvailabilityKeyset \<Rightarrow> u64 \<Rightarrow> bytes \<Rightarrow> bytes \<Rightarrow> bool"
  SerializeSignableFields :: "DataAvailabilityCertificate \<Rightarrow> bytes"
  DecodeBlobs :: "bytes list \<Rightarrow> bytes option"

text \<open>A \<open>DataAvailabilityReader\<close> is its \<open>GetByHash\<close>; a \<open>BlobReader\<close> its \<open>GetBlobs\<close>.\<close>

type_synonym DataAvailabilityReader = "hash \<Rightarrow> error + bytes"
type_synonym BlobReader = "hash \<Rightarrow> hash list \<Rightarrow> error + bytes list"

text \<open>
  The closure \<open>getByHash\<close>: a version-0 hash is looked up under its tree hash first and
  under the flat hash when that fails; the preimage is then hashed again and compared.
\<close>

definition getByHash ::
  "dasenv \<Rightarrow> byte \<Rightarrow> DataAvailabilityReader \<Rightarrow> hash \<Rightarrow> error + bytes" where
  "getByHash D version dasReader h =
     (let newHash = (if version = 0 then FlatHashToTreeHash D h else h);
          first = dasReader newHash;
          res = (case first of
                   Inl err \<Rightarrow> (if h \<noteq> newHash then dasReader h else Inl err)
                 | Inr preimage \<Rightarrow> Inr preimage)
      in case res of
           Inl err \<Rightarrow> Inl err
         | Inr preimage \<Rightarrow>
             (if (version = 0 \<and> Keccak256Hash D preimage \<noteq> h)
                 \<or> (version = 1 \<and> dastreeHash D preimage \<noteq> h)
              then Inl ErrHashMismatch
              else Inr preimage))"

text \<open>\<open>dastree.RecordHash(recordPreimage, v)\<close> on the keccak preimage map.\<close>

definition map_upd :: "(hash \<rightharpoonup> bytes) \<Rightarrow> hash \<Rightarrow> bytes \<Rightarrow> (hash \<rightharpoonup> bytes)" where
  "map_upd m k v = (\<lambda>x. if x = k then Some v else m x)"

definition recordInto :: "dasenv \<Rightarrow> (hash \<rightharpoonup> bytes) \<Rightarrow> bytes \<Rightarrow> (hash \<rightharpoonup> bytes)" where
  "recordInto D m v = foldl (\<lambda>acc (k, x). map_upd acc k x) m (dastreeRecordHash D v)"

text \<open>
  \<open>RecoverPayloadFromDasBatch\<close>.  The argument \<open>keccakPreimages\<close> is \<open>None\<close> when
  \<open>preimages\<close> is nil and the keccak map of \<open>preimages\<close> otherwise; the function gives
  back that map as it has written it, with the result.  With
  \<open>KeysetPanicIfInvalid\<close> a keyset that does not decode is logged with \<open>log.Crit\<close>,
  which ends the process.
\<close>

definition RecoverPayloadFromDasBatch ::
  "dasenv \<Rightarrow> u64 \<Rightarrow> bytes \<Rightarrow> DataAvailabilityReader \<Rightarrow> (hash \<rightharpoonup> bytes) option \<Rightarrow>
     KeysetValidationMode \<Rightarrow> (hash \<rightharpoonup> bytes) option \<times> (error + bytes option)" where
  "RecoverPayloadFromDasBatch D batchNum sequencerMsg dasReader keccakPreimages mode =
     (if length sequencerMsg < 40 then (keccakPreimages, Inl Panic)
      else case DeserializeDASCertFrom D (drop 40 sequencerMsg) of
        None \<Rightarrow> (keccakPreimages, Inr None)
      | Some cert \<Rightarrow>
          let version = Version cert in
          if version \<ge> 2 then (keccakPreimages, Inr None)
          else case getByHash D version dasReader (KeysetHash cert) of
            Inl err \<Rightarrow> (keccakPreimages, Inl err)
          | Inr keysetPreimage \<Rightarrow>
              let pre1 = map_option (\<lambda>m. recordInto D m keysetPreimage) keccakPreimages in
              case DeserializeKeyset D keysetPreimage (mode = KeysetDontValidate) of
                None \<Rightarrow> (if mode = KeysetPanicIfInvalid then (pre1, Inl CritExit)
                          else (pre1, Inr None))
              | Some keyset \<Rightarrow>
                  if \<not> VerifySignature D keyset (SignersMask cert)
                           (SerializeSignableFields D cert) (Sig cert)
                  then (pre1, Inr None)
                  else
                    let maxTimestamp = Uint64 (take 8 (drop 8 sequencerMsg)) in
                    if Timeout cert < maxTimestamp + MinLifetimeSecondsForDataAvailabilityCert
                    then (pre1, Inr None)
                    else
                      let dataHash = DataHash cert in
                      case getByHash D version dasReader dataHash of
                        Inl err \<Rightarrow> (pre1, Inl err)
                      | Inr payload \<Rightarrow>
                          let pre2 = map_option (\<lambda>m.
                                if version = 0 then
                                  (let treeLeaf = FlatHashToTreeLeaf D dataHash
                                   in map_upd (map_upd m dataHash payload)
                                        (Keccak256Hash D treeLeaf) treeLeaf)
                                else recordInto D m payload) pre1
                          in (pre2, Inr (Some payload)))"

text \<open>The provider \<open>dAProviderForDAS\<close>, at \<open>preimages = nil\<close>.\<close>

definition dAProviderForDAS :: "env \<Rightarrow> dasenv \<Rightarrow> DataAvailabilityReader \<Rightarrow> DataAvailabilityProvider" where
  "dAProviderForDAS E D das =
     \<lparr>IsValidHeaderByte = IsDASMessageHeaderByte E,
      RecoverPayloadFromBatch = (\<lambda>batchNum batchBlockHash sequencerMsg mode.
         snd (RecoverPayloadFromDasBatch D batchNum sequencerMsg das None mode))\<rparr>"

text \<open>Cutting \<open>sequencerMsg[41:]\<close> into hashes of 32 bytes.\<close>

fun versionedHashesOf :: "nat \<Rightarrow> bytes \<Rightarrow> hash list" where
  "versionedHashesOf 0 blobHashes = []"
| "versionedHashesOf (Suc n) blobHashes = take 32 blobHashes # versionedHashesOf n (drop 32 blobHashes)"

definition blobRecoverPayloadFromBatch ::
  "dasenv \<Rightarrow> BlobReader \<Rightarrow> u64 \<Rightarrow> hash \<Rightarrow> bytes \<Rightarrow> KeysetValidationMode \<Rightarrow> error + bytes option" where
  "blobRecoverPayloadFromBatch D blobReader batchNum batchBlockHash sequencerMsg mode =
     (if length sequencerMsg < 41 then Inl Panic
      else
        let blobHashes = drop 41 sequencerMsg in
        if length blobHashes mod 32 \<noteq> 0 then Inl ErrBlobNotHashes
        else
          let versionedHashes = versionedHashesOf (length blobHashes div 32) blobHashes in
          case blobReader batchBlockHash versionedHashes of
            Inl err \<Rightarrow> Inl (ErrGetBlobs err)
          | Inr kzgBlobs \<Rightarrow>
              (case DecodeBlobs D kzgBlobs of
                 None \<Rightarrow> Inr None
               | Some payload \<Rightarrow> Inr (Some payload)))"

definition dAProviderForBlobReader :: "env \<Rightarrow> dasenv \<Rightarrow> BlobReader \<Rightarrow> DataAvailabilityProvider" where
  "dAProviderForBlobReader E D blobReader =
     \<lparr>IsValidHeaderByte = IsBlobHashesHeaderByte E,
      RecoverPayloadFromBatch = blobRecoverPayloadFromBatch D blobReader\<rparr>"

section \<open>The inbox multiplexer\<close>

text \<open>
  Modelled from the spec: \<open>InboxBackend\<close> is an interface and no implementation of it
  is part of the sources.  Following the interface description (a non-destructive peek
  at the current batch, a position in the sequencer inbox that \<open>AdvanceSequencerInbox\<close>
  moves on, a position within the message that is read and set, a delayed inbox read by
  sequence number), the backend is a state of two positions over two stores; the stores
  answer with an error or a value.
\<close>

record InboxBackend =
  sequencerInbox :: "u64 \<Rightarrow> error + bytes \<times> hash"
  delayedInbox :: "u64 \<Rightarrow> error + L1IncomingMessage"
  sequencerInboxPosition :: u64
  positionWithinMessage :: u64

definition PeekSequencerInbox :: "InboxBackend \<Rightarrow> error + bytes \<times> hash" where
  "PeekSequencerInbox b = sequencerInbox b (sequencerInboxPosition b)"

definition GetSequencerInboxPosition :: "InboxBackend \<Rightarrow> u64" where
  "GetSequencerInboxPosition b = sequencerInboxPosition b"

definition AdvanceSequencerInbox :: "InboxBackend \<Rightarrow> InboxBackend" where
  "AdvanceSequencerInbox b = b\<lparr>sequencerInboxPosition := sequencerInboxPosition b + 1\<rparr>"

definition GetPositionWithinMessage :: "InboxBackend \<Rightarrow> u64" where
  "GetPositionWithinMessage b = positionWithinMessage b"

definition SetPositionWithinMessage :: "u64 \<Rightarrow> InboxBackend \<Rightarrow> InboxBackend" where
  "SetPositionWithinMessage pos b = b\<lparr>positionWithinMessage := pos\<rparr>"

definition ReadDelayedInbox :: "InboxBackend \<Rightarrow> u64 \<Rightarrow> error + L1IncomingMessage" where
  "ReadDelayedInbox b seqNum = delayedInbox b seqNum"

record inboxMultiplexer =
  backend :: InboxBackend
  delayedMessagesRead :: u64
  daProviders :: "DataAvailabilityProvider option list"
  cachedSequencerMessage :: "sequencerMessage option"
  cachedSequencerMessageNum :: u64
  cachedSegmentNum :: u64
  cachedSegmentTimestamp :: u64
  cachedSegmentBlockNumber :: u64
  cachedSubMessageNumber :: u64
  keysetValidationMode :: KeysetValidationMode

definition NewInboxMultiplexer ::
  "InboxBackend \<Rightarrow> u64 \<Rightarrow> DataAvailabilityProvider option list \<Rightarrow> KeysetValidationMode \<Rightarrow>
     inboxMultiplexer" where
  "NewInboxMultiplexer b dmr providers mode =
     \<lparr>backend = b, delayedMessagesRead = dmr, daProviders = providers,
      cachedSequencerMessage = None, cachedSequencerMessageNum = 0, cachedSegmentNum = 0,
      cachedSegmentTimestamp = 0, cachedSegmentBlockNumber = 0, cachedSubMessageNumber = 0,
      keysetValidationMode = mode\<rparr>"

definition advanceSequencerMsg :: "inboxMultiplexer \<Rightarrow> inboxMultiplexer" where
  "advanceSequencerMsg r =
     (let r1 = (case cachedSequencerMessage r of
                  Some seqMsg \<Rightarrow> r\<lparr>delayedMessagesRead := afterDelayedMessages seqMsg\<rparr>
                | None \<Rightarrow> r)
      in r1\<lparr>backend := AdvanceSequencerInbox (SetPositionWithinMessage 0 (backend r1)),
             cachedSequencerMessage := None,
             cachedSegmentNum := 0,
             cachedSegmentTimestamp := 0,
             cachedSegmentBlockNumber := 0,
             cachedSubMessageNumber := 0\<rparr>)"

definition advanceSubMsg :: "inboxMultiplexer \<Rightarrow> inboxMultiplexer" where
  "advanceSubMsg r =
     (let prevPos = GetPositionWithinMessage (backend r)
      in r\<lparr>backend := SetPositionWithinMessage (prevPos + 1) (backend r)\<rparr>)"

text \<open>
  The loop of \<open>IsCachedSegementLast\<close>, with its \<open>int\<close> index.  A negative index is
  below the length, so the slice is indexed with it and the run-time panics: \<open>None\<close>.
\<close>

function scanSegments :: "bytes list \<Rightarrow> int \<Rightarrow> bool option" where
  "scanSegments segs segmentNum =
     (if segmentNum < int (length segs) then
        (if segmentNum < 0 then None
         else
           let segment = segs ! nat segmentNum in
           if segment = [] then scanSegments segs (segmentNum + 1)
           else
             let kind = hd segment in
             if kind = BatchSegmentKindL2Message \<or> kind = BatchSegmentKindL2MessageBrotli then Some False
             else if kind = BatchSegmentKindDelayedMessages then Some False
             else scanSegments segs (segmentNum + 1))
      else Some True)"
  by pat_completeness auto
termination
  by (relation "measure (\<lambda>(segs, segmentNum). nat (int (length segs) - segmentNum))") auto

declare scanSegments.simps [simp del]

text \<open>
  \<open>int(r.cachedSegmentNum) + 1\<close> is computed in 64-bit two's complement: it is the
  signed reading of the word \<open>cachedSegmentNum + 1\<close>.  A nil cached message panics.
\<close>

definition IsCachedSegementLast :: "inboxMultiplexer \<Rightarrow> bool option" where
  "IsCachedSegementLast r =
     (case cachedSequencerMessage r of
        None \<Rightarrow> None
      | Some seqMsg \<Rightarrow>
          if delayedMessagesRead r < afterDelayedMessages seqMsg then Some False
          else scanSegments (segments seqMsg) (sint (cachedSegmentNum r + 1)))"

text \<open>A cursor below a bound is incremented without wrap-around.\<close>

lemma unat_succ_less:
  fixes n m :: "'a::len word"
  assumes "n < m"
  shows "unat (n + 1) = Suc (unat n)"
proof -
  from assms have "unat n < unat m" by (simp add: word_less_nat_alt)
  moreover have "unat m < 2 ^ LENGTH('a)" by (rule unsigned_less)
  ultimately have "Suc (unat n) < 2 ^ LENGTH('a)" by linarith
  then have "unat n + unat (1 :: 'a word) < 2 ^ LENGTH('a)" by simp
  then have "unat (n + 1) = unat n + unat (1 :: 'a word)" by (simp only: unat_add_lem)
  then show ?thesis by simp
qed

lemma word_succ_lt:
  fixes n :: u64
  assumes "\<not> m \<le> n"
  shows "unat m - unat (n + 1) < unat m - unat n"
proof -
  from assms have lt: "n < m" by simp
  then have "unat n < unat m" by (simp add: word_less_nat_alt)
  with unat_succ_less [OF lt] show ?thesis by simp
qed

text \<open>
  The first loop of \<open>getNextMsg\<close>: it walks from the cached segment over empty
  segments and advance directives, and over the sub-messages before the target.  It
  gives the segment number, the running timestamp and block number, and the
  sub-message number at which it stops.
\<close>

function walkSegments ::
  "env \<Rightarrow> u64 \<Rightarrow> bytes list \<Rightarrow> u64 \<Rightarrow> u64 \<Rightarrow> u64 \<Rightarrow> u64 \<Rightarrow> u64 \<times> u64 \<times> u64 \<times> u64" where
  "walkSegments E targetSubMessage segs segmentNum timestamp blockNumber submessageNumber =
     (if segmentNum \<ge> of_nat (length segs) then (segmentNum, timestamp, blockNumber, submessageNumber)
      else
        let segment = segs ! unat segmentNum in
        if segment = [] then
          walkSegments E targetSubMessage segs (segmentNum + 1) timestamp blockNumber submessageNumber
        else
          let segmentKind = hd segment in
          if segmentKind = BatchSegmentKindAdvanceTimestamp
             \<or> segmentKind = BatchSegmentKindAdvanceL1BlockNumber then
            (case rlpUint64 E (tl segment) of
               None \<Rightarrow>
                 walkSegments E targetSubMessage segs (segmentNum + 1) timestamp blockNumber submessageNumber
             | Some advancing \<Rightarrow>
                 if segmentKind = BatchSegmentKindAdvanceTimestamp then
                   walkSegments E targetSubMessage segs (segmentNum + 1) (timestamp + advancing)
                     blockNumber submessageNumber
                 else
                   walkSegments E targetSubMessage segs (segmentNum + 1) timestamp
                     (blockNumber + advancing) submessageNumber)
          else if submessageNumber < targetSubMessage then
            walkSegments E targetSubMessage segs (segmentNum + 1) timestamp blockNumber
              (submessageNumber + 1)
          else (segmentNum, timestamp, blockNumber, submessageNumber))"
  by pat_completeness auto

termination walkSegments
  by (relation "measure (\<lambda>(E, tgt, segs, n, ts, bn, sub). unat (of_nat (length segs) :: u64) - unat n)")
     (auto intro: word_succ_lt)

declare walkSegments.simps [simp del]

text \<open>
  \<open>getNextMsg\<close> gives the multiplexer as it leaves it and the pair \<open>(msg, err)\<close> of
  the Go function: \<open>(None, None)\<close> is a parsing error (\<open>nil, nil\<close>).
\<close>

definition getNextMsg ::
  "env \<Rightarrow> inboxMultiplexer \<Rightarrow> inboxMultiplexer \<times> (MessageWithMetadata option \<times> error option)" where
  "getNextMsg E r =
     (case cachedSequencerMessage r of
        None \<Rightarrow> (r, (None, Some Panic))
      | Some seqMsg \<Rightarrow>
          let targetSubMessage = GetPositionWithinMessage (backend r);
              (segmentNum, timestamp, blockNumber, submessageNumber) =
                 walkSegments E targetSubMessage (segments seqMsg) (cachedSegmentNum r)
                   (cachedSegmentTimestamp r) (cachedSegmentBlockNumber r) (cachedSubMessageNumber r);
              r1 = r\<lparr>cachedSegmentNum := segmentNum,
                     cachedSegmentTimestamp := timestamp,
                     cachedSegmentBlockNumber := blockNumber,
                     cachedSubMessageNumber := submessageNumber\<rparr>;
              timestamp' = (if timestamp < minTimestamp seqMsg then minTimestamp seqMsg
                            else if timestamp > maxTimestamp seqMsg then maxTimestamp seqMsg
                            else timestamp);
              blockNumber' = (if blockNumber < minL1Block seqMsg then minL1Block seqMsg
                              else if blockNumber > maxL1Block seqMsg then maxL1Block seqMsg
                              else blockNumber);
              segment = (if segmentNum \<ge> of_nat (length (segments seqMsg))
                         then [BatchSegmentKindDelayedMessages]
                         else segments seqMsg ! unat segmentNum)
          in
          if segment = [] then (r1, (None, None))
          else
            let kind = hd segment; body = tl segment in
            if kind = BatchSegmentKindL2Message \<or> kind = BatchSegmentKindL2MessageBrotli then
              (case (if kind = BatchSegmentKindL2MessageBrotli
                     then Decompress E body (MaxL2MessageSize E) else Some body) of
                 None \<Rightarrow> (r1, (None, None))
               | Some l2msg \<Rightarrow>
                   (r1, (Some \<lparr>Message = \<lparr>Header = \<lparr>Kind = L1MessageType_L2Message E,
                                                     Poster = BatchPosterAddress E,
                                                     BlockNumber = blockNumber',
                                                     Timestamp = timestamp',
                                                     RequestId = None,
                                                     L1BaseFee = Some 0\<rparr>,
                                          L2msg = l2msg\<rparr>,
                               DelayedMessagesRead = delayedMessagesRead r1\<rparr>, None)))
            else if kind = BatchSegmentKindDelayedMessages then
              (if delayedMessagesRead r1 \<ge> afterDelayedMessages seqMsg then
                 (r1, (Some \<lparr>Message = InvalidL1Message E,
                             DelayedMessagesRead = afterDelayedMessages seqMsg\<rparr>, None))
               else
                 (case ReadDelayedInbox (backend r1) (delayedMessagesRead r1) of
                    Inl realErr \<Rightarrow> (r1, (None, Some realErr))
                  | Inr delayed \<Rightarrow>
                      let r2 = r1\<lparr>delayedMessagesRead := delayedMessagesRead r1 + 1\<rparr>
                      in (r2, (Some \<lparr>Message = delayed,
                                     DelayedMessagesRead = delayedMessagesRead r2\<rparr>, None))))
            else (r1, (None, None)))"

text \<open>
  The first block of \<open>Pop\<close>: with no cached message, the next batch is peeked at and
  parsed.  \<open>Inl (r', err)\<close> is the early return with the error \<open>err\<close>.
\<close>

definition fetchSequencerMessage ::
  "env \<Rightarrow> inboxMultiplexer \<Rightarrow> inboxMultiplexer \<times> error + inboxMultiplexer" where
  "fetchSequencerMessage E r =
     (case cachedSequencerMessage r of
        Some seqMsg \<Rightarrow> Inr r
      | None \<Rightarrow>
          (case PeekSequencerInbox (backend r) of
             Inl realErr \<Rightarrow> Inl (r, realErr)
           | Inr (data, batchBlockHash) \<Rightarrow>
               let r0 = r\<lparr>cachedSequencerMessageNum := GetSequencerInboxPosition (backend r)\<rparr> in
               (case parseSequencerMessage E (cachedSequencerMessageNum r0) batchBlockHash data
                       (daProviders r0) (keysetValidationMode r0) of
                  Inl err \<Rightarrow> Inl (r0\<lparr>cachedSequencerMessage := None\<rparr>, err)
                | Inr parsed \<Rightarrow> Inr (r0\<lparr>cachedSequencerMessage := Some parsed\<rparr>))))"

definition Pop ::
  "env \<Rightarrow> inboxMultiplexer \<Rightarrow> inboxMultiplexer \<times> (MessageWithMetadata option \<times> error option)" where
  "Pop E r =
     (case fetchSequencerMessage E r of
        Inl (r', err) \<Rightarrow> (r', (None, Some err))
      | Inr r1 \<Rightarrow>
          let (r2, (msg, err)) = getNextMsg E r1 in
          (case IsCachedSegementLast r2 of
             None \<Rightarrow> (r2, (None, Some Panic))
           | Some isLast \<Rightarrow>
               let r3 = (if isLast then advanceSequencerMsg r2 else advanceSubMsg r2);
                   msg' = (if msg = None \<and> err = None
                           then Some \<lparr>Message = InvalidL1Message E,
                                      DelayedMessagesRead = delayedMessagesRead r3\<rparr>
                           else msg)
               in (r3, (msg', err))))"

text \<open>The method \<open>DelayedMessagesRead\<close> of the multiplexer.\<close>

definition inboxMultiplexer_DelayedMessagesRead :: "inboxMultiplexer \<Rightarrow> u64" where
  "inboxMultiplexer_DelayedMessagesRead r = delayedMessagesRead r"

text \<open>The multiplexer after \<open>n\<close> successive calls of \<open>Pop\<close>.\<close>

fun afterPops :: "env \<Rightarrow> nat \<Rightarrow> inboxMultiplexer \<Rightarrow> inboxMultiplexer" where
  "afterPops E 0 r = r"
| "afterPops E (Suc n) r = afterPops E n (fst (Pop E r))"

text \<open>
  The batch that the next \<open>Pop\<close> works on (none when it cannot be fetched), and the
  runs of \<open>n\<close> calls in which every batch, when \<open>Pop\<close> works on it, announces at
  least as many delayed messages as have been read.
\<close>

definition currentBatch :: "env \<Rightarrow> inboxMultiplexer \<Rightarrow> sequencerMessage option" where
  "currentBatch E r =
     (case fetchSequencerMessage E r of Inl x \<Rightarrow> None | Inr r1 \<Rightarrow> cachedSequencerMessage r1)"

fun batchesAhead :: "env \<Rightarrow> nat \<Rightarrow> inboxMultiplexer \<Rightarrow> bool" where
  "batchesAhead E 0 r = True"
| "batchesAhead E (Suc n) r =
     ((case currentBatch E r of
         None \<Rightarrow> True
       | Some seqMsg \<Rightarrow> delayedMessagesRead r \<le> afterDelayedMessages seqMsg)
      \<and> batchesAhead E n (fst (Pop E r)))"

section \<open>An instance of the parameters\<close>

text \<open>
  To evaluate the model on concrete inputs the parameters are instantiated: header
  bytes classified by flag bits (\<open>0x80\<close> DAS, \<open>0x40\<close> L1-authenticated, \<open>0x50\<close>
  blob hashes, \<open>0x20\<close> zero-heavy, the byte \<open>0\<close> brotli, known bits \<open>0xF8\<close>),
  zero-heavy and brotli layers that store their content unchanged, and RLP decoders for
  single bytes and short strings.  No theorem about the code depends on this instance:
  it only supplies the inputs of examples.
\<close>

fun rlpShortStrings :: "nat \<Rightarrow> bytes \<Rightarrow> bytes list" where
  "rlpShortStrings 0 d = []"
| "rlpShortStrings (Suc k) [] = []"
| "rlpShortStrings (Suc k) (b # rest) =
     (if b < 0x80 then [b] # rlpShortStrings k rest
      else if b \<le> 0xB7 \<and> unat b - 128 \<le> length rest
              \<and> \<not> (unat b - 128 = 1 \<and> hd rest < 0x80)
      then take (unat b - 128) rest # rlpShortStrings k (drop (unat b - 128) rest)
      else [])"

definition rlpShortUint64 :: "bytes \<Rightarrow> u64 option" where
  "rlpShortUint64 s =
     (case s of
        [] \<Rightarrow> None
      | b # rest \<Rightarrow>
          if b = 0 then None
          else if b < 0x80 then Some (ucast b)
          else if b \<le> 0x88 \<and> unat b - 128 \<le> length rest then
            (let v = take (unat b - 128) rest in
             if v = [] then Some 0
             else if hd v = 0 \<or> (length v = 1 \<and> hd v < 0x80) then None
             else Some (foldl (\<lambda>acc x. push_bit 8 acc OR ucast x) 0 v))
          else None)"

definition exampleEnv :: env where
  "exampleEnv =
     \<lparr>IsL1AuthenticatedMessageHeaderByte = (\<lambda>b. b AND 0x40 = 0x40),
      IsKnownHeaderByte = (\<lambda>b. b AND 0x07 = 0),
      IsDASMessageHeaderByte = (\<lambda>b. b AND 0x80 = 0x80),
      IsBlobHashesHeaderByte = (\<lambda>b. b AND 0x50 = 0x50),
      IsZeroheavyEncodedHeaderByte = (\<lambda>b. b AND 0x20 = 0x20),
      IsBrotliMessageHeaderByte = (\<lambda>b. b = 0),
      zeroheavyReadAll = (\<lambda>p n. Some (take (nat n) p)),
      Decompress = (\<lambda>p n. if int (length p) \<le> n then Some p else None),
      rlpDecodeSegments = (\<lambda>d. rlpShortStrings (length d) d),
      rlpUint64 = rlpShortUint64,
      MaxL2MessageSize = 256 * 1024,
      L1MessageType_L2Message = 3,
      BatchPosterAddress = [0xA4, 0xB0, 0, 0, 0, 0, 0, 0, 0, 0, 0,
                            0x73, 0x65, 0x71, 0x75, 0x65, 0x6E, 0x63, 0x65, 0x72],
      InvalidL1Message = \<lparr>Header = \<lparr>Kind = 0xFF, Poster = [], BlockNumber = 0,
                                     Timestamp = 0, RequestId = None, L1BaseFee = None\<rparr>,
                          L2msg = []\<rparr>\<rparr>"

text \<open>
  A delayed message and a backend for the examples: the backend holds a list of batches
  and the delayed messages with the sequence numbers below \<open>delayedCount\<close>.
\<close>

definition exampleDelayed :: "u64 \<Rightarrow> L1IncomingMessage" where
  "exampleDelayed n =
     \<lparr>Header = \<lparr>Kind = 9, Poster = [1], BlockNumber = n, Timestamp = n,
                 RequestId = None, L1BaseFee = None\<rparr>,
      L2msg = []\<rparr>"

definition header40 :: "byte \<Rightarrow> byte \<Rightarrow> byte \<Rightarrow> byte \<Rightarrow> byte \<Rightarrow> bytes" where
  "header40 minT maxT minL1 maxL1 after =
     [0, 0, 0, 0, 0, 0, 0, minT, 0, 0, 0, 0, 0, 0, 0, maxT, 0, 0, 0, 0, 0, 0, 0, minL1,
      0, 0, 0, 0, 0, 0, 0, maxL1, 0, 0, 0, 0, 0, 0, 0, after]"

definition exampleBackend :: "bytes list \<Rightarrow> nat \<Rightarrow> InboxBackend" where
  "exampleBackend batches delayedCount =
     \<lparr>sequencerInbox = (\<lambda>n. if unat n < length batches then Inr (batches ! unat n, [])
                             else Inl (ErrExternal ''no batch'')),
      delayedInbox = (\<lambda>n. if unat n < delayedCount then Inr (exampleDelayed n)
                           else Inl (ErrExternal ''no delayed message'')),
      sequencerInboxPosition = 0,
      positionWithinMessage = 0\<rparr>"

text \<open>A multiplexer that holds a batch in its cache, and a batch, for the examples.\<close>

definition exampleMux :: "sequencerMessage \<Rightarrow> u64 \<Rightarrow> inboxMultiplexer" where
  "exampleMux seqMsg dmr =
     (NewInboxMultiplexer (exampleBackend [] 0) dmr [] KeysetValidate)\<lparr>cachedSequencerMessage := Some seqMsg\<rparr>"

definition exampleBatch :: "u64 \<Rightarrow> bytes list \<Rightarrow> sequencerMessage" where
  "exampleBatch after segs =
     \<lparr>minTimestamp = 0, maxTimestamp = 100, minL1Block = 10, maxL1Block = 100,
      afterDelayedMessages = after, segments = segs\<rparr>"

text \<open>
  The batch of the advance-directive scenario: the header \<open>minT = 0\<close>, \<open>maxT = 100\<close>,
  \<open>minL1 = 10\<close>, \<open>maxL1 = 100\<close>, and the segments \<open>[3, 5]\<close>, \<open>[4, 2]\<close>, \<open>[0, 'x']\<close>.
\<close>

definition advanceBatch :: bytes where
  "advanceBatch = header40 0 100 10 100 0 @ [0, 0x82, 3, 5, 0x82, 4, 2, 0x82, 0, 0x78]"

text \<open>
  Two backends with two batches without segments: in the first the second batch
  announces fewer delayed messages than the first (1, then 0), in the second more
  (1, then 2).
\<close>

definition shrinkingBackend :: InboxBackend where
  "shrinkingBackend = exampleBackend [header40 0 100 10 100 1, header40 0 100 10 100 0] 1"

definition growingBackend :: InboxBackend where
  "growingBackend = exampleBackend [header40 0 100 10 100 1, header40 0 100 10 100 2] 2"

text \<open>
  An instance of the DAS collaborators: a certificate is read from the three bytes
  after the header (header byte, version, timeout), a hash is the first byte of its
  preimage, every keyset decodes and every signature verifies.  One reader stores a
  preimage for every hash, the other fails.  The DAS batch has \<open>maxTimestamp = 100\<close>
  and a certificate of version 1 with timeout 0: it expires too soon.
\<close>

definition exampleDasEnv :: dasenv where
  "exampleDasEnv =
     \<lparr>DeserializeDASCertFrom =
        (\<lambda>bs. case bs of
               header # version # timeout # rest \<Rightarrow>
                 Some \<lparr>KeysetHash = [1], DataHash = [2], Timeout = ucast timeout,
                       SignersMask = 0, Sig = [], Version = version\<rparr>
             | _ \<Rightarrow> None),
      FlatHashToTreeHash = (\<lambda>h. h),
      FlatHashToTreeLeaf = (\<lambda>h. h),
      Keccak256Hash = take 1,
      dastreeHash = take 1,
      dastreeRecordHash = (\<lambda>v. [(take 1 v, v)]),
      DeserializeKeyset = (\<lambda>p assumeValid. Some (Keyset p)),
      VerifySignature = (\<lambda>keyset mask fields sig. True),
      SerializeSignableFields = (\<lambda>cert. []),
      DecodeBlobs = (\<lambda>blobs. Some (concat blobs))\<rparr>"

definition storingReader :: DataAvailabilityReader where
  "storingReader h = Inr (h @ [0])"

definition failingReader :: DataAvailabilityReader where
  "failingReader h = Inl (ErrExternal ''unavailable'')"

definition expiredDasBatch :: "byte \<Rightarrow> bytes" where
  "expiredDasBatch after = header40 0 100 10 100 after @ [0x80, 1, 0]"

definition expiredCert :: DataAvailabilityCertificate where
  "expiredCert = \<lparr>KeysetHash = [1], DataHash = [2], Timeout = 0, SignersMask = 0, Sig = [],
                   Version = 1\<rparr>"

definition expiredDasBackend :: InboxBackend where
  "expiredDasBackend = exampleBackend [expiredDasBatch 1] 1"

text \<open>
  A batch whose header has its bounds the wrong way round (\<open>minT = 100\<close>, \<open>maxT = 50\<close>,
  \<open>minL1 = 10\<close>, \<open>maxL1 = 5\<close>) and one L2 message, and what the parser makes of it.
\<close>

definition invertedBatch :: bytes where
  "invertedBatch = header40 100 50 10 5 0 @ [0, 0x82, 0, 0x78]"

definition invertedMessage :: sequencerMessage where
  "invertedMessage =
     \<lparr>minTimestamp = 100, maxTimestamp = 50, minL1Block = 10, maxL1Block = 5,
      afterDelayedMessages = 0, segments = [[0, 120]]\<rparr>"

section \<open>Properties of the parser\<close>

lemma tryProviders_none:
  "list_all (\<lambda>p. case p of None \<Rightarrow> True | Some pr \<Rightarrow> \<not> IsValidHeaderByte pr b) ps \<Longrightarrow>
   tryProviders ps b batchNum h data mode = None"
  by (induction ps b batchNum h data mode rule: tryProviders.induct) auto

lemma payload_first_byte:
  assumes "length data > 40"
  shows "drop 40 data \<noteq> []" and "hd (drop 40 data) = data ! 40"
  using assms by (simp_all add: hd_drop_conv_nth)

text \<open>
  C7.  A batch whose first payload byte \<open>data[40]\<close> is L1-authenticated and not a
  known header byte is refused: the parser returns the \<open>FatalNodeOutOfDate\<close> error
  for that byte, and no parsed message, whatever the providers and the mode.
\<close>

theorem parse_unknown_authenticated_byte:
  assumes "length data > 40"
    and "IsL1AuthenticatedMessageHeaderByte E (data ! 40)"
    and "\<not> IsKnownHeaderByte E (data ! 40)"
  shows "parseSequencerMessage E batchNum batchBlockHash data providers mode
           = Inl (ErrFatalNodeOutOfDate (data ! 40))"
  using assms payload_first_byte [OF assms(1)]
  by (simp add: parseSequencerMessage_def Let_def)

theorem parse_unknown_authenticated_byte_witness:
  "parseSequencerMessage exampleEnv 0 [] (header40 0 100 10 100 1 @ [0x41]) [] KeysetValidate
     = Inl (ErrFatalNodeOutOfDate 0x41)"
  using parse_unknown_authenticated_byte
          [of "header40 0 100 10 100 1 @ [0x41]" exampleEnv 0 "[]" "[]" KeysetValidate]
  by (simp add: header40_def exampleEnv_def)

text \<open>
  C5, as the code has it.  Let no configured provider accept the known header byte
  \<open>data[40]\<close>.  If the byte is a DAS header byte, the parser returns no error and goes
  on to stages 2 and 3 with the payload as it was; when the byte is neither a
  zero-heavy nor a brotli byte the result has no segments.  If the byte is a
  blob-hashes byte and not a DAS byte, the parser returns the error that no blob reader
  is configured.
\<close>

theorem parse_unclaimed_da_byte:
  assumes len: "length data > 40"
    and unclaimed: "list_all (\<lambda>p. case p of None \<Rightarrow> True
                              | Some pr \<Rightarrow> \<not> IsValidHeaderByte pr (data ! 40)) providers"
    and known: "IsKnownHeaderByte E (data ! 40)"
  shows "(IsDASMessageHeaderByte E (data ! 40) \<longrightarrow>
            parseSequencerMessage E batchNum batchBlockHash data providers mode
              = Inr (parseStage2 E (parseHeader data) (drop 40 data))
            \<and> (\<not> IsZeroheavyEncodedHeaderByte E (data ! 40)
                  \<and> \<not> IsBrotliMessageHeaderByte E (data ! 40) \<longrightarrow>
                parseStage2 E (parseHeader data) (drop 40 data) = parseHeader data))
       \<and> (\<not> IsDASMessageHeaderByte E (data ! 40) \<and> IsBlobHashesHeaderByte E (data ! 40) \<longrightarrow>
            parseSequencerMessage E batchNum batchBlockHash data providers mode = Inl ErrNoBlobReader)"
proof -
  note pl = payload_first_byte [OF len]
  have tp: "tryProviders providers (data ! 40) batchNum batchBlockHash data mode = None"
    using unclaimed by (rule tryProviders_none)
  have st1: "IsDASMessageHeaderByte E (data ! 40) \<Longrightarrow>
      parseStage1 E (parseHeader data) batchNum batchBlockHash data providers mode (drop 40 data)
        = Inr (Inr (drop 40 data))"
    using pl tp by (simp add: parseStage1_def)
  have st1': "\<not> IsDASMessageHeaderByte E (data ! 40) \<Longrightarrow> IsBlobHashesHeaderByte E (data ! 40) \<Longrightarrow>
      parseStage1 E (parseHeader data) batchNum batchBlockHash data providers mode (drop 40 data)
        = Inl ErrNoBlobReader"
    using pl tp by (simp add: parseStage1_def)
  have st2: "\<not> IsZeroheavyEncodedHeaderByte E (data ! 40) \<Longrightarrow>
      \<not> IsBrotliMessageHeaderByte E (data ! 40) \<Longrightarrow>
      parseStage2 E (parseHeader data) (drop 40 data) = parseHeader data"
    using pl by (simp add: parseStage2_def parseStage3_def)
  show ?thesis
    using len known pl st1 st1' st2 by (simp add: parseSequencerMessage_def Let_def)
qed

theorem parse_unclaimed_da_byte_witness:
  "parseSequencerMessage exampleEnv 0 [] (header40 0 100 10 100 1 @ [0x80]) [] KeysetValidate
     = Inr (parseHeader (header40 0 100 10 100 1 @ [0x80]))"
  using parse_unclaimed_da_byte
          [of "header40 0 100 10 100 1 @ [0x80]" "[]" exampleEnv 0 "[]" KeysetValidate]
  by (simp add: header40_def exampleEnv_def)

theorem parse_unclaimed_blob_byte_error:
  "IsBlobHashesHeaderByte exampleEnv 0x50 \<and> IsKnownHeaderByte exampleEnv 0x50
   \<and> parseSequencerMessage exampleEnv 0 [] (header40 0 100 10 100 1 @ [0x50]) [] KeysetValidate
       = Inl ErrNoBlobReader"
  by (simp add: parseSequencerMessage_def parseStage1_def header40_def exampleEnv_def)

section \<open>Properties of the multiplexer\<close>

lemmas backend_defs = PeekSequencerInbox_def GetSequencerInboxPosition_def AdvanceSequencerInbox_def
  GetPositionWithinMessage_def SetPositionWithinMessage_def ReadDelayedInbox_def

lemmas kind_defs = BatchSegmentKindL2Message_def BatchSegmentKindL2MessageBrotli_def
  BatchSegmentKindDelayedMessages_def BatchSegmentKindAdvanceTimestamp_def
  BatchSegmentKindAdvanceL1BlockNumber_def

text \<open>
  What the scan computes from a non-negative index: no later segment is non-empty with
  one of the kinds 0, 1 and 2.
\<close>

lemma scanSegments_spec:
  "0 \<le> i \<Longrightarrow>
   scanSegments segs i =
     Some (\<forall>j. nat i \<le> j \<and> j < length segs \<longrightarrow>
             \<not> (segs ! j \<noteq> [] \<and> hd (segs ! j) \<in> {BatchSegmentKindL2Message,
                     BatchSegmentKindL2MessageBrotli, BatchSegmentKindDelayedMessages}))"
proof (induction segs i rule: scanSegments.induct)
  case (1 segs i)
  show ?case
  proof (cases "i < int (length segs)")
    case False
    then show ?thesis using "1.prems" by (subst scanSegments.simps) auto
  next
    case True
    let ?s = "segs ! nat i"
    have split: "\<And>P. (\<forall>j. nat i \<le> j \<and> j < length segs \<longrightarrow> P j)
        \<longleftrightarrow> (P (nat i) \<and> (\<forall>j. nat (i + 1) \<le> j \<and> j < length segs \<longrightarrow> P j))"
    proof -
      fix P
      have "\<And>j. nat i \<le> j \<longleftrightarrow> j = nat i \<or> nat (i + 1) \<le> j" using "1.prems" by auto
      moreover have "nat i < length segs" using True "1.prems" by auto
      ultimately show "?thesis P" by auto
    qed
    show ?thesis
    proof (cases "?s = []")
      case e: True
      have "scanSegments segs i = scanSegments segs (i + 1)"
        using True "1.prems" e by (subst scanSegments.simps) simp
      also have "\<dots> = Some (\<forall>j. nat (i + 1) \<le> j \<and> j < length segs \<longrightarrow>
             \<not> (segs ! j \<noteq> [] \<and> hd (segs ! j) \<in> {BatchSegmentKindL2Message,
                     BatchSegmentKindL2MessageBrotli, BatchSegmentKindDelayedMessages}))"
        using "1.IH"(1) [OF True _ refl e] "1.prems" by simp
      finally show ?thesis using e by (subst split) auto
    next
      case ne: False
      show ?thesis
      proof (cases "hd ?s \<in> {BatchSegmentKindL2Message,
                     BatchSegmentKindL2MessageBrotli, BatchSegmentKindDelayedMessages}")
        case r: True
        have "scanSegments segs i = Some False"
          using True "1.prems" ne r by (subst scanSegments.simps) (auto simp: Let_def)
        then show ?thesis using ne r by (subst split) auto
      next
        case nr: False
        have "scanSegments segs i = scanSegments segs (i + 1)"
          using True "1.prems" ne nr by (subst scanSegments.simps) (simp add: Let_def)
        also have "\<dots> = Some (\<forall>j. nat (i + 1) \<le> j \<and> j < length segs \<longrightarrow>
             \<not> (segs ! j \<noteq> [] \<and> hd (segs ! j) \<in> {BatchSegmentKindL2Message,
                     BatchSegmentKindL2MessageBrotli, BatchSegmentKindDelayedMessages}))"
          using "1.IH"(2) [OF True _ refl ne refl] nr "1.prems" by simp
        finally show ?thesis using nr by (subst split) auto
      qed
    qed
  qed
qed

lemma sint_succ_small:
  fixes n :: u64
  assumes "unat n < 2 ^ 63 - 1"
  shows "sint (n + 1) = uint n + 1"
proof -
  from assms have "unat n + unat (1 :: u64) < 2 ^ LENGTH(64)" by simp
  then have u: "unat (n + 1) = unat n + 1" by (simp only: unat_add_lem) simp
  have "uint (n + 1) = int (unat (n + 1))" by simp
  also have "\<dots> = int (unat n) + 1" unfolding u by simp
  also have "\<dots> = uint n + 1" by simp
  finally have ui: "uint (n + 1) = uint n + 1" .
  from assms have "int (unat n) < int (2 ^ 63 - 1)" by (simp only: of_nat_less_iff)
  then have small: "uint n < 2 ^ 63 - 1" by simp
  have "sint (n + 1) = signed_take_bit 63 (uint (n + 1))" by (simp add: sint_uint)
  also have "\<dots> = uint (n + 1)"
    using small unfolding ui by (intro signed_take_bit_int_eq_self) simp_all
  finally show ?thesis using ui by simp
qed

text \<open>
  C2.  With a batch in the cache and a segment cursor in the range of \<open>int\<close>,
  \<open>IsCachedSegementLast\<close> is true exactly when \<open>delayedMessagesRead\<close> has reached
  \<open>afterDelayedMessages\<close> and no segment after the cursor is non-empty with a leading
  byte 0 (L2Message), 1 (L2MessageBrotli) or 2 (DelayedMessages).  Empty segments and
  segments of any other kind, the advance directives 3 and 4 among them, never make it
  false.
\<close>

theorem IsCachedSegementLast_iff:
  assumes "cachedSequencerMessage r = Some seqMsg"
    and "unat (cachedSegmentNum r) < 2 ^ 63 - 1"
  shows "IsCachedSegementLast r =
           Some (delayedMessagesRead r \<ge> afterDelayedMessages seqMsg
                 \<and> (\<forall>j. unat (cachedSegmentNum r) < j \<and> j < length (segments seqMsg) \<longrightarrow>
                        \<not> (segments seqMsg ! j \<noteq> []
                           \<and> hd (segments seqMsg ! j) \<in> {BatchSegmentKindL2Message,
                                 BatchSegmentKindL2MessageBrotli, BatchSegmentKindDelayedMessages})))"
proof -
  have s: "sint (cachedSegmentNum r + 1) = uint (cachedSegmentNum r) + 1"
    using assms(2) by (rule sint_succ_small)
  have "0 \<le> uint (cachedSegmentNum r) + 1" by simp
  note sc = scanSegments_spec [OF this, of "segments seqMsg"]
  have n: "nat (uint (cachedSegmentNum r) + 1) = Suc (unat (cachedSegmentNum r))"
    by (simp add: nat_add_distrib)
  show ?thesis
    using assms(1) by (auto simp add: IsCachedSegementLast_def s sc n Suc_le_eq not_less)
qed

theorem IsCachedSegementLast_iff_witness:
  "IsCachedSegementLast (exampleMux (exampleBatch 0 [[0, 1], [3, 5], []]) 0) = Some True
   \<and> IsCachedSegementLast (exampleMux (exampleBatch 0 [[0, 1], [3, 5], [2]]) 0) = Some False"
proof -
  let ?K = "{BatchSegmentKindL2Message, BatchSegmentKindL2MessageBrotli, BatchSegmentKindDelayedMessages}"
  let ?b1 = "exampleBatch 0 [[0, 1], [3, 5], []]" and ?b2 = "exampleBatch 0 [[0, 1], [3, 5], [2]]"
  let ?r1 = "exampleMux ?b1 0" and ?r2 = "exampleMux ?b2 0"
  have c1: "cachedSequencerMessage ?r1 = Some ?b1" "unat (cachedSegmentNum ?r1) < 2 ^ 63 - 1"
    and c2: "cachedSequencerMessage ?r2 = Some ?b2" "unat (cachedSegmentNum ?r2) < 2 ^ 63 - 1"
    by (simp_all add: exampleMux_def NewInboxMultiplexer_def)
  have a1: "(delayedMessagesRead ?r1 \<ge> afterDelayedMessages ?b1) = True"
    and a2: "(delayedMessagesRead ?r2 \<ge> afterDelayedMessages ?b2) = True"
    by (simp_all add: exampleMux_def exampleBatch_def NewInboxMultiplexer_def)
  have n1: "unat (cachedSegmentNum ?r1) = 0" and n2: "unat (cachedSegmentNum ?r2) = 0"
    by (simp_all add: exampleMux_def NewInboxMultiplexer_def)
  have s1: "segments ?b1 = [[0, 1], [3, 5], []]" and s2: "segments ?b2 = [[0, 1], [3, 5], [2]]"
    by (simp_all add: exampleBatch_def)
  have q1: "(\<forall>j. unat (cachedSegmentNum ?r1) < j \<and> j < length (segments ?b1) \<longrightarrow>
              \<not> (segments ?b1 ! j \<noteq> [] \<and> hd (segments ?b1 ! j) \<in> ?K)) = True"
  proof (rule eqTrueI, intro allI impI)
    fix j assume "unat (cachedSegmentNum ?r1) < j \<and> j < length (segments ?b1)"
    then have "j = 1 \<or> j = 2" unfolding n1 s1 by auto
    then show "\<not> (segments ?b1 ! j \<noteq> [] \<and> hd (segments ?b1 ! j) \<in> ?K)"
      unfolding s1 by (auto simp add: kind_defs)
  qed
  have q2: "(\<forall>j. unat (cachedSegmentNum ?r2) < j \<and> j < length (segments ?b2) \<longrightarrow>
              \<not> (segments ?b2 ! j \<noteq> [] \<and> hd (segments ?b2 ! j) \<in> ?K)) = False"
  proof (rule eq_False [THEN iffD2], rule notI)
    assume "\<forall>j. unat (cachedSegmentNum ?r2) < j \<and> j < length (segments ?b2) \<longrightarrow>
              \<not> (segments ?b2 ! j \<noteq> [] \<and> hd (segments ?b2 ! j) \<in> ?K)"
    then have "unat (cachedSegmentNum ?r2) < 2 \<and> 2 < length (segments ?b2) \<longrightarrow>
              \<not> (segments ?b2 ! 2 \<noteq> [] \<and> hd (segments ?b2 ! 2) \<in> ?K)" by (rule spec)
    then show False unfolding n2 s2 by (simp add: kind_defs)
  qed
  have "IsCachedSegementLast ?r1 = Some True"
    unfolding IsCachedSegementLast_iff [OF c1] a1 q1 by simp
  moreover have "IsCachedSegementLast ?r2 = Some False"
    unfolding IsCachedSegementLast_iff [OF c2] a2 q2 by simp
  ultimately show ?thesis by (rule conjI)
qed

text \<open>What \<open>getNextMsg\<close> leaves unchanged, and what it does to the cursors and the counter.\<close>

lemma getNextMsg_frame:
  assumes "getNextMsg E r = (r', res)"
  shows "backend r' = backend r" "cachedSequencerMessage r' = cachedSequencerMessage r"
    "daProviders r' = daProviders r" "keysetValidationMode r' = keysetValidationMode r"
    "cachedSequencerMessageNum r' = cachedSequencerMessageNum r"
  using assms
  by (auto simp add: getNextMsg_def Let_def split: option.splits prod.splits if_splits sum.splits)

lemma getNextMsg_cursor:
  assumes "cachedSequencerMessage r = Some seqMsg" "getNextMsg E r = (r', res)"
  shows "(cachedSegmentNum r', cachedSegmentTimestamp r', cachedSegmentBlockNumber r',
          cachedSubMessageNumber r') =
         walkSegments E (GetPositionWithinMessage (backend r)) (segments seqMsg) (cachedSegmentNum r)
           (cachedSegmentTimestamp r) (cachedSegmentBlockNumber r) (cachedSubMessageNumber r)"
  using assms
  by (auto simp add: getNextMsg_def Let_def split: option.splits prod.splits if_splits sum.splits)

lemma getNextMsg_error:
  assumes "cachedSequencerMessage r = Some seqMsg" "getNextMsg E r = (r', (msg, Some err))"
  shows "msg = None" "delayedMessagesRead r' = delayedMessagesRead r"
    "delayedMessagesRead r < afterDelayedMessages seqMsg"
    "ReadDelayedInbox (backend r) (delayedMessagesRead r) = Inl err"
  using assms
  by (auto simp add: getNextMsg_def Let_def not_le split: option.splits prod.splits if_splits sum.splits)

lemma getNextMsg_delayedMessagesRead:
  assumes "cachedSequencerMessage r = Some seqMsg" "getNextMsg E r = (r', res)"
  shows "delayedMessagesRead r' = delayedMessagesRead r
         \<or> (delayedMessagesRead r < afterDelayedMessages seqMsg
            \<and> delayedMessagesRead r' = delayedMessagesRead r + 1)"
  using assms
  by (auto simp add: getNextMsg_def Let_def not_le split: option.splits prod.splits if_splits sum.splits)


lemma fetch_Inl:
  assumes "fetchSequencerMessage E r = Inl (r', err)"
  shows "backend r' = backend r" "delayedMessagesRead r' = delayedMessagesRead r"
    "cachedSequencerMessage r' = cachedSequencerMessage r" "cachedSequencerMessage r = None"
    "cachedSegmentNum r' = cachedSegmentNum r" "cachedSubMessageNumber r' = cachedSubMessageNumber r"
    "cachedSegmentTimestamp r' = cachedSegmentTimestamp r"
    "cachedSegmentBlockNumber r' = cachedSegmentBlockNumber r"
    "daProviders r' = daProviders r" "keysetValidationMode r' = keysetValidationMode r"
  using assms
  by (auto simp add: fetchSequencerMessage_def Let_def split: option.splits sum.splits prod.splits)

lemma fetch_Inr:
  assumes "fetchSequencerMessage E r = Inr r1"
  shows "backend r1 = backend r" "delayedMessagesRead r1 = delayedMessagesRead r"
    "cachedSequencerMessage r1 \<noteq> None"
    "cachedSegmentNum r1 = cachedSegmentNum r" "cachedSubMessageNumber r1 = cachedSubMessageNumber r"
    "cachedSegmentTimestamp r1 = cachedSegmentTimestamp r"
    "cachedSegmentBlockNumber r1 = cachedSegmentBlockNumber r"
    "daProviders r1 = daProviders r" "keysetValidationMode r1 = keysetValidationMode r"
    "cachedSequencerMessage r \<noteq> None \<Longrightarrow> r1 = r"
  using assms
  by (auto simp add: fetchSequencerMessage_def Let_def split: option.splits sum.splits prod.splits)

lemma fetch_fresh:
  assumes "cachedSequencerMessage r = None"
    and "PeekSequencerInbox (backend r) = Inr (data, h)"
    and "parseSequencerMessage E (GetSequencerInboxPosition (backend r)) h data (daProviders r)
           (keysetValidationMode r) = Inr seqMsg"
  shows "fetchSequencerMessage E r =
           Inr (r\<lparr>cachedSequencerMessageNum := GetSequencerInboxPosition (backend r),
                   cachedSequencerMessage := Some seqMsg\<rparr>)"
  using assms by (simp add: fetchSequencerMessage_def Let_def)

lemma fetch_cached:
  "cachedSequencerMessage r = Some seqMsg \<Longrightarrow> fetchSequencerMessage E r = Inr r"
  by (simp add: fetchSequencerMessage_def)

lemma fetch_peek_error:
  "cachedSequencerMessage r = None \<Longrightarrow> PeekSequencerInbox (backend r) = Inl e \<Longrightarrow>
     fetchSequencerMessage E r = Inl (r, e)"
  by (simp add: fetchSequencerMessage_def)

lemma Pop_fetch_Inl:
  "fetchSequencerMessage E r = Inl (r', err) \<Longrightarrow> Pop E r = (r', (None, Some err))"
  by (simp add: Pop_def)

lemma Pop_fetch_Inr:
  assumes "fetchSequencerMessage E r = Inr r1" and "getNextMsg E r1 = (r2, (msg, err))"
  shows "Pop E r =
     (case IsCachedSegementLast r2 of
        None \<Rightarrow> (r2, (None, Some Panic))
      | Some isLast \<Rightarrow>
          (if isLast then advanceSequencerMsg r2 else advanceSubMsg r2,
           (if msg = None \<and> err = None
            then Some \<lparr>Message = InvalidL1Message E,
                       DelayedMessagesRead =
                         delayedMessagesRead (if isLast then advanceSequencerMsg r2 else advanceSubMsg r2)\<rparr>
            else msg), err))"
  using assms by (simp add: Pop_def Let_def split: option.splits)

lemma advanceSubMsg_simps:
  "delayedMessagesRead (advanceSubMsg r) = delayedMessagesRead r"
  "cachedSequencerMessage (advanceSubMsg r) = cachedSequencerMessage r"
  "sequencerInboxPosition (backend (advanceSubMsg r)) = sequencerInboxPosition (backend r)"
  "positionWithinMessage (backend (advanceSubMsg r)) = positionWithinMessage (backend r) + 1"
  "sequencerInbox (backend (advanceSubMsg r)) = sequencerInbox (backend r)"
  "delayedInbox (backend (advanceSubMsg r)) = delayedInbox (backend r)"
  by (simp_all add: advanceSubMsg_def backend_defs Let_def)

lemma advanceSequencerMsg_simps:
  "cachedSequencerMessage r = Some seqMsg \<Longrightarrow>
     delayedMessagesRead (advanceSequencerMsg r) = afterDelayedMessages seqMsg"
  "cachedSequencerMessage (advanceSequencerMsg r) = None"
  "sequencerInboxPosition (backend (advanceSequencerMsg r)) = sequencerInboxPosition (backend r) + 1"
  "positionWithinMessage (backend (advanceSequencerMsg r)) = 0"
  "sequencerInbox (backend (advanceSequencerMsg r)) = sequencerInbox (backend r)"
  "delayedInbox (backend (advanceSequencerMsg r)) = delayedInbox (backend r)"
  by (simp_all add: advanceSequencerMsg_def backend_defs Let_def split: option.splits)

lemma IsCachedSegementLast_True:
  "IsCachedSegementLast r = Some True \<Longrightarrow> cachedSequencerMessage r = Some seqMsg \<Longrightarrow>
     afterDelayedMessages seqMsg \<le> delayedMessagesRead r"
  by (auto simp add: IsCachedSegementLast_def split: if_splits)

lemma IsCachedSegementLast_behind:
  "cachedSequencerMessage r = Some seqMsg \<Longrightarrow> delayedMessagesRead r < afterDelayedMessages seqMsg \<Longrightarrow>
     IsCachedSegementLast r = Some False"
  by (simp add: IsCachedSegementLast_def)

text \<open>
  C3, as the code has it.  Let \<open>Pop\<close> return an error.  If the error comes from the
  peek or from the parser (the batch could not be fetched), no message is returned and
  the backend, \<open>delayedMessagesRead\<close>, the cached batch and the segment and sub-message
  cursors are as before.  If the batch was fetched and the error is an error value
  (not a panic), it is the error of \<open>ReadDelayedInbox\<close>: \<open>delayedMessagesRead\<close> and the
  position in the sequencer inbox are as before, the batch stays cached, and the
  position within the message has advanced by one.
\<close>

theorem Pop_error_state:
  assumes pop: "Pop E r = (r', (msg, Some err))"
  shows "(\<forall>x. fetchSequencerMessage E r = Inl x \<longrightarrow>
            msg = None
            \<and> backend r' = backend r
            \<and> delayedMessagesRead r' = delayedMessagesRead r
            \<and> cachedSequencerMessage r' = cachedSequencerMessage r
            \<and> cachedSegmentNum r' = cachedSegmentNum r
            \<and> cachedSubMessageNumber r' = cachedSubMessageNumber r)
       \<and> (\<forall>r1. fetchSequencerMessage E r = Inr r1 \<and> err \<noteq> Panic \<longrightarrow>
            msg = None
            \<and> ReadDelayedInbox (backend r) (delayedMessagesRead r) = Inl err
            \<and> delayedMessagesRead r' = delayedMessagesRead r
            \<and> cachedSequencerMessage r' = cachedSequencerMessage r1
            \<and> GetSequencerInboxPosition (backend r') = GetSequencerInboxPosition (backend r)
            \<and> GetPositionWithinMessage (backend r') = GetPositionWithinMessage (backend r) + 1)"
proof (rule conjI; intro allI impI)
  fix x assume f: "fetchSequencerMessage E r = Inl x"
  obtain r0 e where x: "x = (r0, e)" by (cases x)
  from pop Pop_fetch_Inl [OF f [unfolded x]] have eq: "r' = r0" "msg = None" by simp_all
  note fr = fetch_Inl [OF f [unfolded x]]
  show "msg = None
            \<and> backend r' = backend r
            \<and> delayedMessagesRead r' = delayedMessagesRead r
            \<and> cachedSequencerMessage r' = cachedSequencerMessage r
            \<and> cachedSegmentNum r' = cachedSegmentNum r
            \<and> cachedSubMessageNumber r' = cachedSubMessageNumber r"
    using fr eq by simp
next
  fix r1 assume "fetchSequencerMessage E r = Inr r1 \<and> err \<noteq> Panic"
  then have f: "fetchSequencerMessage E r = Inr r1" and np: "err \<noteq> Panic" by simp_all
  obtain r2 m e where g: "getNextMsg E r1 = (r2, (m, e))" by (metis prod.exhaust)
  note fr = fetch_Inr [OF f]
  from fr(3) obtain seqMsg where c1: "cachedSequencerMessage r1 = Some seqMsg" by auto
  note gf = getNextMsg_frame [OF g]
  have c2: "cachedSequencerMessage r2 = Some seqMsg" using gf c1 by simp
  show "msg = None
            \<and> ReadDelayedInbox (backend r) (delayedMessagesRead r) = Inl err
            \<and> delayedMessagesRead r' = delayedMessagesRead r
            \<and> cachedSequencerMessage r' = cachedSequencerMessage r1
            \<and> GetSequencerInboxPosition (backend r') = GetSequencerInboxPosition (backend r)
            \<and> GetPositionWithinMessage (backend r') = GetPositionWithinMessage (backend r) + 1"
  proof (cases e)
    case None
    with pop Pop_fetch_Inr [OF f g] np have False
      by (cases "IsCachedSegementLast r2") auto
    then show ?thesis ..
  next
    case (Some e')
    note ge = getNextMsg_error [OF c1 g [unfolded Some]]
    have "delayedMessagesRead r2 < afterDelayedMessages seqMsg" using ge by simp
    then have l: "IsCachedSegementLast r2 = Some False" using c2 by (simp add: IsCachedSegementLast_behind)
    from pop Pop_fetch_Inr [OF f g] l Some ge(1)
    have eq: "r' = advanceSubMsg r2" "msg = None" "err = e'" by simp_all
    show ?thesis
      using eq ge gf fr c1 c2 by (simp add: advanceSubMsg_simps backend_defs)
  qed
qed

text \<open>The advance-directive scenario, for any decoder that reads the two deltas.\<close>

lemma walk_advance_scenario:
  assumes "rlpUint64 E [5] = Some 5" "rlpUint64 E [2] = Some 2"
  shows "walkSegments E 0 [[3, 5], [4, 2], [0, 120]] 0 0 0 0 = (2, 5, 2, 0)"
  apply (subst walkSegments.simps, simp add: kind_defs Let_def assms word_le_nat_alt word_less_nat_alt)
  apply (subst walkSegments.simps, simp add: kind_defs Let_def assms word_le_nat_alt word_less_nat_alt)
  apply (subst walkSegments.simps, simp add: kind_defs Let_def assms word_le_nat_alt word_less_nat_alt)
  done

lemma scanSegments_end: "int (length segs) \<le> i \<Longrightarrow> scanSegments segs i = Some True"
  by (subst scanSegments.simps) simp

lemma getNextMsg_advance_scenario:
  assumes c: "cachedSequencerMessage r =
             Some \<lparr>minTimestamp = 0, maxTimestamp = 100, minL1Block = 10, maxL1Block = 100,
                   afterDelayedMessages = a, segments = [[3, 5], [4, 2], [0, 120]]\<rparr>"
    and z: "cachedSegmentNum r = 0" "cachedSegmentTimestamp r = 0" "cachedSegmentBlockNumber r = 0"
      "cachedSubMessageNumber r = 0" "GetPositionWithinMessage (backend r) = 0"
    and rlp: "rlpUint64 E [5] = Some 5" "rlpUint64 E [2] = Some 2"
  shows "getNextMsg E r =
     (r\<lparr>cachedSegmentNum := 2, cachedSegmentTimestamp := 5, cachedSegmentBlockNumber := 2,
        cachedSubMessageNumber := 0\<rparr>,
      (Some \<lparr>Message = \<lparr>Header = \<lparr>Kind = L1MessageType_L2Message E,
                                    Poster = BatchPosterAddress E,
                                    BlockNumber = 10, Timestamp = 5,
                                    RequestId = None, L1BaseFee = Some 0\<rparr>,
                         L2msg = [120]\<rparr>,
              DelayedMessagesRead = delayedMessagesRead r\<rparr>, None))"
  using c z walk_advance_scenario [OF rlp]
  by (simp add: getNextMsg_def Let_def kind_defs)

lemma IsCachedSegementLast_at_end:
  assumes "cachedSequencerMessage r = Some seqMsg"
    and "int (length (segments seqMsg)) \<le> sint (cachedSegmentNum r + 1)"
  shows "IsCachedSegementLast r = Some (afterDelayedMessages seqMsg \<le> delayedMessagesRead r)"
  using assms by (auto simp add: IsCachedSegementLast_def scanSegments_end)

text \<open>
  C4, as the code has it.  The first \<open>Pop\<close> of a new multiplexer on a batch with
  \<open>minT = 0\<close>, \<open>maxT = 100\<close>, \<open>minL1 = 10\<close>, \<open>maxL1 = 100\<close> and the segments
  \<open>[3, RLP 5]\<close>, \<open>[4, RLP 2]\<close>, \<open>[0, 'x']\<close> returns the L2 message \<open>'x'\<close> with
  timestamp 5 and block number 10: the running block number 2 is below \<open>minL1\<close> and
  is clamped to it.
\<close>

theorem Pop_advance_scenario:
  assumes peek: "PeekSequencerInbox b = Inr (data, h)"
    and parse: "parseSequencerMessage E (GetSequencerInboxPosition b) h data ps mode =
             Inr \<lparr>minTimestamp = 0, maxTimestamp = 100, minL1Block = 10, maxL1Block = 100,
                  afterDelayedMessages = a, segments = [[3, 5], [4, 2], [0, 120]]\<rparr>"
    and pos: "GetPositionWithinMessage b = 0"
    and rlp: "rlpUint64 E [5] = Some 5" "rlpUint64 E [2] = Some 2"
  shows "snd (Pop E (NewInboxMultiplexer b dmr ps mode)) =
           (Some \<lparr>Message = \<lparr>Header = \<lparr>Kind = L1MessageType_L2Message E,
                                         Poster = BatchPosterAddress E,
                                         BlockNumber = 10, Timestamp = 5,
                                         RequestId = None, L1BaseFee = Some 0\<rparr>,
                              L2msg = [120]\<rparr>,
                   DelayedMessagesRead = dmr\<rparr>, None)"
proof -
  let ?seqMsg = "\<lparr>minTimestamp = 0, maxTimestamp = 100, minL1Block = 10, maxL1Block = 100,
                  afterDelayedMessages = a, segments = [[3, 5], [4, 2], [0, 120]]\<rparr>"
  let ?r = "NewInboxMultiplexer b dmr ps mode"
  let ?r1 = "?r\<lparr>cachedSequencerMessageNum := GetSequencerInboxPosition (backend ?r),
                 cachedSequencerMessage := Some ?seqMsg\<rparr>"
  have f: "fetchSequencerMessage E ?r = Inr ?r1"
    using peek parse by (intro fetch_fresh) (simp_all add: NewInboxMultiplexer_def)
  have g: "getNextMsg E ?r1 = (?r1\<lparr>cachedSegmentNum := 2, cachedSegmentTimestamp := 5,
               cachedSegmentBlockNumber := 2, cachedSubMessageNumber := 0\<rparr>,
      (Some \<lparr>Message = \<lparr>Header = \<lparr>Kind = L1MessageType_L2Message E,
                                    Poster = BatchPosterAddress E,
                                    BlockNumber = 10, Timestamp = 5,
                                    RequestId = None, L1BaseFee = Some 0\<rparr>,
                         L2msg = [120]\<rparr>,
              DelayedMessagesRead = delayedMessagesRead ?r1\<rparr>, None))"
    by (rule getNextMsg_advance_scenario [where a = a])
       (simp_all add: NewInboxMultiplexer_def pos rlp)
  have l: "IsCachedSegementLast (?r1\<lparr>cachedSegmentNum := 2, cachedSegmentTimestamp := 5,
               cachedSegmentBlockNumber := 2, cachedSubMessageNumber := 0\<rparr>) = Some (a \<le> dmr)"
    by (subst IsCachedSegementLast_at_end [where seqMsg = ?seqMsg])
       (simp_all add: NewInboxMultiplexer_def)
  show ?thesis
    unfolding Pop_fetch_Inr [OF f g] l by (simp add: NewInboxMultiplexer_def)
qed

lemma parse_advanceBatch:
  "parseSequencerMessage exampleEnv n h advanceBatch [] mode =
     Inr \<lparr>minTimestamp = 0, maxTimestamp = 100, minL1Block = 10, maxL1Block = 100,
          afterDelayedMessages = 0, segments = [[3, 5], [4, 2], [0, 120]]\<rparr>"
  by (simp add: parseSequencerMessage_def parseStage1_def parseStage2_def parseStage3_def
      parseHeader_def Uint64_def advanceBatch_def header40_def exampleEnv_def Let_def
      MaxDecompressedLen_def MaxSegmentsPerSequencerMessage_def)

lemma exampleEnv_rlp: "rlpUint64 exampleEnv [5] = Some 5" "rlpUint64 exampleEnv [2] = Some 2"
  by (simp_all add: exampleEnv_def rlpShortUint64_def)

lemma exampleBackend_peek:
  "PeekSequencerInbox (exampleBackend (x # xs) k) = Inr (x, [])"
  "GetPositionWithinMessage (exampleBackend bs k) = 0"
  "GetSequencerInboxPosition (exampleBackend bs k) = 0"
  by (simp_all add: backend_defs exampleBackend_def)

theorem Pop_advance_scenario_witness:
  "snd (Pop exampleEnv (NewInboxMultiplexer (exampleBackend [advanceBatch] 0) 0 [] KeysetValidate)) =
           (Some \<lparr>Message = \<lparr>Header = \<lparr>Kind = L1MessageType_L2Message exampleEnv,
                                         Poster = BatchPosterAddress exampleEnv,
                                         BlockNumber = 10, Timestamp = 5,
                                         RequestId = None, L1BaseFee = Some 0\<rparr>,
                              L2msg = [120]\<rparr>,
                   DelayedMessagesRead = 0\<rparr>, None)"
  by (rule Pop_advance_scenario [where a = 0 and h = "[]" and data = advanceBatch])
     (simp_all add: exampleBackend_peek parse_advanceBatch exampleEnv_rlp)

subsection \<open>Batches without segments\<close>

text \<open>
  A batch with no segments has only virtual delayed-message segments: \<open>Pop\<close> returns
  the invalid message when the counter has reached \<open>afterDelayedMessages\<close>, and the next
  delayed message (or the error of the backend) when it has not.
\<close>

lemma walk_no_segments:
  "walkSegments E t [] n ts bn sub = (n, ts, bn, sub)"
  by (subst walkSegments.simps) simp

lemma getNextMsg_no_segments:
  assumes "cachedSequencerMessage r = Some seqMsg" and "segments seqMsg = []"
  shows "getNextMsg E r =
     (if afterDelayedMessages seqMsg \<le> delayedMessagesRead r then
        (r, (Some \<lparr>Message = InvalidL1Message E,
                    DelayedMessagesRead = afterDelayedMessages seqMsg\<rparr>, None))
      else
        (case ReadDelayedInbox (backend r) (delayedMessagesRead r) of
           Inl realErr \<Rightarrow> (r, (None, Some realErr))
         | Inr delayed \<Rightarrow>
             (r\<lparr>delayedMessagesRead := delayedMessagesRead r + 1\<rparr>,
              (Some \<lparr>Message = delayed, DelayedMessagesRead = delayedMessagesRead r + 1\<rparr>, None))))"
  using assms
  by (simp add: getNextMsg_def walk_no_segments Let_def kind_defs split: sum.splits)

lemma scan_no_segments: "0 \<le> i \<Longrightarrow> scanSegments [] i = Some True"
  by (rule scanSegments_end) simp

lemma IsCachedSegementLast_no_segments:
  assumes "cachedSequencerMessage r = Some seqMsg" and "segments seqMsg = []"
    and "cachedSegmentNum r = 0"
  shows "IsCachedSegementLast r = Some (afterDelayedMessages seqMsg \<le> delayedMessagesRead r)"
  using assms by (auto simp add: IsCachedSegementLast_def scan_no_segments)

lemma Pop_header_only:
  assumes f: "fetchSequencerMessage E r = Inr r1"
    and c: "cachedSequencerMessage r1 = Some seqMsg" and s: "segments seqMsg = []"
    and n: "cachedSegmentNum r1 = 0"
  shows "Pop E r =
     (if afterDelayedMessages seqMsg \<le> delayedMessagesRead r1 then
        (advanceSequencerMsg r1,
         (Some \<lparr>Message = InvalidL1Message E,
                 DelayedMessagesRead = afterDelayedMessages seqMsg\<rparr>, None))
      else
        (case ReadDelayedInbox (backend r1) (delayedMessagesRead r1) of
           Inl realErr \<Rightarrow> (advanceSubMsg r1, (None, Some realErr))
         | Inr delayed \<Rightarrow>
             (let r2 = r1\<lparr>delayedMessagesRead := delayedMessagesRead r1 + 1\<rparr>
              in (if afterDelayedMessages seqMsg \<le> delayedMessagesRead r1 + 1
                  then advanceSequencerMsg r2 else advanceSubMsg r2,
                  (Some \<lparr>Message = delayed, DelayedMessagesRead = delayedMessagesRead r1 + 1\<rparr>,
                   None)))))"
proof (cases "afterDelayedMessages seqMsg \<le> delayedMessagesRead r1")
  case True
  then have g: "getNextMsg E r1 = (r1, (Some \<lparr>Message = InvalidL1Message E,
                    DelayedMessagesRead = afterDelayedMessages seqMsg\<rparr>, None))"
    by (simp add: getNextMsg_no_segments [OF c s])
  show ?thesis
    using True by (simp add: Pop_fetch_Inr [OF f g] IsCachedSegementLast_no_segments [OF c s n])
next
  case False
  show ?thesis
  proof (cases "ReadDelayedInbox (backend r1) (delayedMessagesRead r1)")
    case (Inl e)
    then have g: "getNextMsg E r1 = (r1, (None, Some e))"
      using False by (simp add: getNextMsg_no_segments [OF c s])
    show ?thesis
      using False Inl by (simp add: Pop_fetch_Inr [OF f g] IsCachedSegementLast_no_segments [OF c s n])
  next
    case (Inr d)
    let ?r2 = "r1\<lparr>delayedMessagesRead := delayedMessagesRead r1 + 1\<rparr>"
    have g: "getNextMsg E r1 = (?r2,
              (Some \<lparr>Message = d, DelayedMessagesRead = delayedMessagesRead r1 + 1\<rparr>, None))"
      using False Inr by (simp add: getNextMsg_no_segments [OF c s])
    have c2: "cachedSequencerMessage ?r2 = Some seqMsg" "cachedSegmentNum ?r2 = 0"
      using c n by simp_all
    show ?thesis
      using False Inr
      by (simp add: Pop_fetch_Inr [OF f g] IsCachedSegementLast_no_segments [OF c2(1) s c2(2)] Let_def)
  qed
qed

lemma parse_header_only:
  "length data = 40 \<Longrightarrow> parseSequencerMessage E n h data ps mode = Inr (parseHeader data)"
  by (simp add: parseSequencerMessage_def parseStage1_def parseStage2_def parseStage3_def Let_def)

lemma parseHeader_header40:
  "parseHeader (header40 minT maxT minL1 maxL1 after) =
     \<lparr>minTimestamp = ucast minT, maxTimestamp = ucast maxT, minL1Block = ucast minL1,
      maxL1Block = ucast maxL1, afterDelayedMessages = ucast after, segments = []\<rparr>"
  by (simp add: parseHeader_def header40_def Uint64_def)


lemma exampleMux_simps:
  "cachedSequencerMessage (exampleMux seqMsg dmr) = Some seqMsg"
  "cachedSegmentNum (exampleMux seqMsg dmr) = 0"
  "delayedMessagesRead (exampleMux seqMsg dmr) = dmr"
  "backend (exampleMux seqMsg dmr) = exampleBackend [] 0"
  by (simp_all add: exampleMux_def NewInboxMultiplexer_def)

lemma exampleBatch_simps:
  "segments (exampleBatch a segs) = segs" "afterDelayedMessages (exampleBatch a segs) = a"
  by (simp_all add: exampleBatch_def)

lemma exampleBackend_delayed:
  "ReadDelayedInbox (exampleBackend bs k) n =
     (if unat n < k then Inr (exampleDelayed n) else Inl (ErrExternal ''no delayed message''))"
  by (simp add: backend_defs exampleBackend_def)

subsection \<open>Errors of \<open>Pop\<close> on concrete multiplexers\<close>

text \<open>
  The batch in the cache announces one delayed message, none has been read, and the
  backend has none: \<open>Pop\<close> returns the error of \<open>ReadDelayedInbox\<close> and the position
  within the message goes from 0 to 1.
\<close>

theorem Pop_delayed_error_advances:
  "snd (Pop exampleEnv (exampleMux (exampleBatch 1 []) 0)) = (None, Some (ErrExternal ''no delayed message''))
   \<and> GetPositionWithinMessage (backend (exampleMux (exampleBatch 1 []) 0)) = 0
   \<and> GetPositionWithinMessage (backend (fst (Pop exampleEnv (exampleMux (exampleBatch 1 []) 0)))) = 1"
proof -
  let ?r = "exampleMux (exampleBatch 1 []) 0"
  have p: "Pop exampleEnv ?r = (advanceSubMsg ?r, (None, Some (ErrExternal ''no delayed message'')))"
    by (simp add: Pop_header_only [OF fetch_cached, where seqMsg = "exampleBatch 1 []"]
          exampleMux_simps exampleBatch_simps exampleBackend_delayed)
  show ?thesis
    by (simp add: p advanceSubMsg_simps backend_defs exampleMux_simps exampleBackend_def)
qed

text \<open>
  The two cases of an error: a backend without batches (the peek fails, nothing
  changes) and the multiplexer above (the read fails, the position advances).
\<close>

theorem Pop_error_state_witness:
  "backend (fst (Pop exampleEnv (NewInboxMultiplexer (exampleBackend [] 0) 0 [] KeysetValidate)))
     = backend (NewInboxMultiplexer (exampleBackend [] 0) 0 [] KeysetValidate)
   \<and> delayedMessagesRead (fst (Pop exampleEnv (exampleMux (exampleBatch 1 []) 0)))
     = delayedMessagesRead (exampleMux (exampleBatch 1 []) 0)
   \<and> GetPositionWithinMessage (backend (fst (Pop exampleEnv (exampleMux (exampleBatch 1 []) 0))))
     = GetPositionWithinMessage (backend (exampleMux (exampleBatch 1 []) 0)) + 1"
proof -
  let ?r = "NewInboxMultiplexer (exampleBackend [] 0) 0 [] KeysetValidate"
  let ?q = "exampleMux (exampleBatch 1 []) 0"
  have fr: "fetchSequencerMessage exampleEnv ?r = Inl (?r, ErrExternal ''no batch'')"
    by (rule fetch_peek_error) (simp_all add: NewInboxMultiplexer_def backend_defs exampleBackend_def)
  then have pr: "Pop exampleEnv ?r = (?r, (None, Some (ErrExternal ''no batch'')))"
    by (rule Pop_fetch_Inl)
  have fq: "fetchSequencerMessage exampleEnv ?q = Inr ?q \<and> ErrExternal ''no delayed message'' \<noteq> Panic"
    by (simp add: fetch_cached exampleMux_simps)
  have pq: "Pop exampleEnv ?q = (advanceSubMsg ?q, (None, Some (ErrExternal ''no delayed message'')))"
    by (simp add: Pop_header_only [OF fetch_cached, where seqMsg = "exampleBatch 1 []"]
          exampleMux_simps exampleBatch_simps exampleBackend_delayed)
  note w1 = Pop_error_state [OF pr, THEN conjunct1, THEN spec, THEN mp, OF fr]
  note w2 = Pop_error_state [OF pq, THEN conjunct2, THEN spec, THEN mp, OF fq]
  have f1: "fst (Pop exampleEnv ?r) = ?r" and f2: "fst (Pop exampleEnv ?q) = advanceSubMsg ?q"
    by (simp_all only: pr pq fst_conv)
  from w1 have a: "backend (fst (Pop exampleEnv ?r)) = backend ?r"
    unfolding f1 by blast
  from w2 have b: "delayedMessagesRead (fst (Pop exampleEnv ?q)) = delayedMessagesRead ?q"
    unfolding f2 by blast
  from w2 have c: "GetPositionWithinMessage (backend (fst (Pop exampleEnv ?q)))
              = GetPositionWithinMessage (backend ?q) + 1"
    unfolding f2 by blast
  from a b c show ?thesis by (intro conjI)
qed

text \<open>
  The claim of block number 12 fails on the scenario: the message of the first \<open>Pop\<close>
  has block number 10.
\<close>

theorem advance_scenario_block_not_12:
  "\<not> (\<exists>msg. fst (snd (Pop exampleEnv
              (NewInboxMultiplexer (exampleBackend [advanceBatch] 0) 0 [] KeysetValidate))) = Some msg
         \<and> Timestamp (Header (Message msg)) = 5 \<and> BlockNumber (Header (Message msg)) = 12)"
proof -
  let ?seqMsg = "\<lparr>minTimestamp = 0, maxTimestamp = 100, minL1Block = 10, maxL1Block = 100,
                  afterDelayedMessages = 0, segments = [[3, 5], [4, 2], [0, 120]]\<rparr>"
  let ?r = "NewInboxMultiplexer (exampleBackend [advanceBatch] 0) 0 [] KeysetValidate"
  let ?r1 = "?r\<lparr>cachedSequencerMessageNum := GetSequencerInboxPosition (backend ?r),
                 cachedSequencerMessage := Some ?seqMsg\<rparr>"
  let ?r2 = "?r1\<lparr>cachedSegmentNum := 2, cachedSegmentTimestamp := 5,
               cachedSegmentBlockNumber := 2, cachedSubMessageNumber := 0\<rparr>"
  let ?msg = "\<lparr>Message = \<lparr>Header = \<lparr>Kind = L1MessageType_L2Message exampleEnv,
                                    Poster = BatchPosterAddress exampleEnv,
                                    BlockNumber = 10, Timestamp = 5,
                                    RequestId = None, L1BaseFee = Some 0\<rparr>,
                         L2msg = [120]\<rparr>,
              DelayedMessagesRead = delayedMessagesRead ?r1\<rparr>"
  have f: "fetchSequencerMessage exampleEnv ?r = Inr ?r1"
    by (rule fetch_fresh [where data = advanceBatch and h = "[]"])
       (simp_all add: NewInboxMultiplexer_def exampleBackend_peek parse_advanceBatch)
  have g: "getNextMsg exampleEnv ?r1 = (?r2, (Some ?msg, None))"
    by (rule getNextMsg_advance_scenario [where a = 0])
       (simp_all add: NewInboxMultiplexer_def exampleBackend_peek exampleEnv_rlp)
  have l: "IsCachedSegementLast ?r2 = Some True"
    by (subst IsCachedSegementLast_at_end [where seqMsg = ?seqMsg])
       (simp_all add: NewInboxMultiplexer_def)
  have "fst (snd (Pop exampleEnv ?r)) = Some ?msg"
    unfolding Pop_fetch_Inr [OF f g] l by simp
  then show ?thesis by simp
qed




subsection \<open>The counter of delayed messages\<close>

lemma word_succ_le:
  fixes x y :: "'a::len word"
  assumes "x < y"
  shows "x \<le> x + 1" and "x + 1 \<le> y"
proof -
  from assms have "unat x < unat y" by (simp add: word_less_nat_alt)
  with unat_succ_less [OF assms] show "x \<le> x + 1" and "x + 1 \<le> y"
    by (simp_all add: word_le_nat_alt)
qed

lemma getNextMsg_counter_bounds:
  assumes c: "cachedSequencerMessage r = Some seqMsg" and g: "getNextMsg E r = (r', res)"
    and le: "delayedMessagesRead r \<le> afterDelayedMessages seqMsg"
  shows "delayedMessagesRead r \<le> delayedMessagesRead r'"
    and "delayedMessagesRead r' \<le> afterDelayedMessages seqMsg"
  using getNextMsg_delayedMessagesRead [OF c g] le word_succ_le by auto

lemma Pop_counter_step:
  assumes ok: "case currentBatch E r of None \<Rightarrow> True
               | Some seqMsg \<Rightarrow> delayedMessagesRead r \<le> afterDelayedMessages seqMsg"
  shows "delayedMessagesRead r \<le> delayedMessagesRead (fst (Pop E r))"
proof (cases "fetchSequencerMessage E r")
  case (Inl x)
  obtain r0 e where x: "x = (r0, e)" by (cases x)
  show ?thesis
    using Pop_fetch_Inl [OF Inl [unfolded x]] fetch_Inl(2) [OF Inl [unfolded x]] by simp
next
  case (Inr r1)
  note fr = fetch_Inr [OF Inr]
  from fr(3) obtain seqMsg where c1: "cachedSequencerMessage r1 = Some seqMsg" by auto
  from ok Inr c1 have le: "delayedMessagesRead r1 \<le> afterDelayedMessages seqMsg"
    by (simp add: currentBatch_def fr(2))
  obtain r2 m e where g: "getNextMsg E r1 = (r2, (m, e))" by (metis prod.exhaust)
  note b = getNextMsg_counter_bounds [OF c1 g le]
  have c2: "cachedSequencerMessage r2 = Some seqMsg" using getNextMsg_frame(2) [OF g] c1 by simp
  have "delayedMessagesRead r2 \<le> delayedMessagesRead (fst (Pop E r))"
  proof (cases "IsCachedSegementLast r2")
    case None
    then show ?thesis by (simp add: Pop_fetch_Inr [OF Inr g])
  next
    case (Some isLast)
    then show ?thesis
      using b(2) by (simp add: Pop_fetch_Inr [OF Inr g] advanceSubMsg_simps
          advanceSequencerMsg_simps(1) [OF c2])
  qed
  with b(1) fr(2) show ?thesis by simp
qed

lemma afterPops_Suc_right: "afterPops E (Suc n) r = fst (Pop E (afterPops E n r))"
  by (induction n arbitrary: r) simp_all

lemma batchesAhead_later:
  "batchesAhead E n r \<Longrightarrow> j \<le> n \<Longrightarrow> batchesAhead E (n - j) (afterPops E j r)"
proof (induction j arbitrary: n r)
  case 0
  then show ?case by simp
next
  case (Suc j)
  then obtain n' where n: "n = Suc n'" by (cases n) auto
  with Suc.prems have "batchesAhead E n' (fst (Pop E r))" "j \<le> n'" by simp_all
  from Suc.IH [OF this] show ?case by (simp add: n)
qed

lemma counter_mono_run:
  "batchesAhead E n r \<Longrightarrow>
     delayedMessagesRead r \<le> delayedMessagesRead (afterPops E n r)"
proof (induction n arbitrary: r)
  case 0
  then show ?case by simp
next
  case (Suc n)
  from Suc.prems have ok: "case currentBatch E r of None \<Rightarrow> True
               | Some seqMsg \<Rightarrow> delayedMessagesRead r \<le> afterDelayedMessages seqMsg"
    and rest: "batchesAhead E n (fst (Pop E r))" by simp_all
  from Pop_counter_step [OF ok] Suc.IH [OF rest] show ?case by simp
qed

lemma batchesAhead_fewer: "batchesAhead E m s \<Longrightarrow> q \<le> m \<Longrightarrow> batchesAhead E q s"
proof (induction q arbitrary: m s)
  case 0
  then show ?case by simp
next
  case (Suc q)
  then obtain m' where "m = Suc m'" by (cases m) auto
  with Suc show ?case by auto
qed

lemma afterPops_split: "j \<le> k \<Longrightarrow> afterPops E k r = afterPops E (k - j) (afterPops E j r)"
proof (induction j arbitrary: k r)
  case 0
  then show ?case by simp
next
  case (Suc j)
  then obtain k' where k: "k = Suc k'" by (cases k) auto
  with Suc.prems have "j \<le> k'" by simp
  from Suc.IH [OF this] show ?case by (simp add: k)
qed

text \<open>
  C9, as the code has it.  In a run of \<open>Pop\<close> calls in which every batch announces,
  when \<open>Pop\<close> works on it, at least as many delayed messages as have been read, the
  value of \<open>DelayedMessagesRead()\<close> never decreases.  (A batch advance sets the counter
  to \<open>afterDelayedMessages\<close>, and it happens only when the counter has reached that
  value: a batch that announces fewer lowers the counter.)
\<close>

theorem DelayedMessagesRead_monotone:
  assumes "batchesAhead E n r" and "j \<le> k" and "k \<le> n"
  shows "inboxMultiplexer_DelayedMessagesRead (afterPops E j r)
           \<le> inboxMultiplexer_DelayedMessagesRead (afterPops E k r)"
proof -
  from assms have jn: "j \<le> n" by simp
  have a: "batchesAhead E (n - j) (afterPops E j r)" by (rule batchesAhead_later [OF assms(1) jn])
  have "k - j \<le> n - j" using assms(3) by simp
  from counter_mono_run [OF batchesAhead_fewer [OF a this]] show ?thesis
    by (simp add: inboxMultiplexer_DelayedMessagesRead_def afterPops_split [OF assms(2)])
qed

lemma Pop_fresh_header_only:
  assumes c: "cachedSequencerMessage r = None" and n: "cachedSegmentNum r = 0"
    and p: "PeekSequencerInbox (backend r) = Inr (data, h)" and l: "length data = 40"
  shows "Pop E r =
     (let seqMsg = parseHeader data;
          r1 = r\<lparr>cachedSequencerMessageNum := GetSequencerInboxPosition (backend r),
                 cachedSequencerMessage := Some seqMsg\<rparr>
      in if afterDelayedMessages seqMsg \<le> delayedMessagesRead r1 then
           (advanceSequencerMsg r1,
            (Some \<lparr>Message = InvalidL1Message E,
                    DelayedMessagesRead = afterDelayedMessages seqMsg\<rparr>, None))
         else
           (case ReadDelayedInbox (backend r1) (delayedMessagesRead r1) of
              Inl realErr \<Rightarrow> (advanceSubMsg r1, (None, Some realErr))
            | Inr delayed \<Rightarrow>
                (let r2 = r1\<lparr>delayedMessagesRead := delayedMessagesRead r1 + 1\<rparr>
                 in (if afterDelayedMessages seqMsg \<le> delayedMessagesRead r1 + 1
                     then advanceSequencerMsg r2 else advanceSubMsg r2,
                     (Some \<lparr>Message = delayed, DelayedMessagesRead = delayedMessagesRead r1 + 1\<rparr>,
                      None)))))"
proof -
  let ?r1 = "r\<lparr>cachedSequencerMessageNum := GetSequencerInboxPosition (backend r),
                 cachedSequencerMessage := Some (parseHeader data)\<rparr>"
  have f: "fetchSequencerMessage E r = Inr ?r1"
    using c p by (rule fetch_fresh) (simp add: parse_header_only [OF l])
  show ?thesis
    unfolding Let_def
    by (rule Pop_header_only [OF f, where seqMsg = "parseHeader data", unfolded Let_def])
       (simp_all add: n parseHeader_def)
qed

lemma length_header40: "length (header40 minT maxT minL1 maxL1 after) = 40"
  by (simp add: header40_def)

lemma currentBatch_fresh_header_only:
  assumes "cachedSequencerMessage r = None" and "PeekSequencerInbox (backend r) = Inr (data, h)"
    and l: "length data = 40"
  shows "currentBatch E r = Some (parseHeader data)"
  using fetch_fresh [OF assms(1,2), of E "parseHeader data"]
  by (simp add: currentBatch_def parse_header_only [OF l])

text \<open>
  With the batches announcing 1 and then 0 delayed messages the counter goes from 0 to
  1 and back to 0.
\<close>

lemma shrinking_first_pop:
  "fst (Pop exampleEnv (NewInboxMultiplexer shrinkingBackend 0 [] KeysetValidate)) =
     NewInboxMultiplexer (shrinkingBackend\<lparr>sequencerInboxPosition := 1\<rparr>) 1 [] KeysetValidate"
  by (subst Pop_fresh_header_only [where data = "header40 0 100 10 100 1" and h = "[]"])
     (simp_all add: NewInboxMultiplexer_def shrinkingBackend_def exampleBackend_def backend_defs
        parseHeader_header40 length_header40 advanceSequencerMsg_def advanceSubMsg_def Let_def
        word_le_nat_alt word_less_nat_alt)

lemma shrinking_second_pop:
  "fst (Pop exampleEnv (NewInboxMultiplexer (shrinkingBackend\<lparr>sequencerInboxPosition := 1\<rparr>) 1 []
          KeysetValidate)) =
     (NewInboxMultiplexer (shrinkingBackend\<lparr>sequencerInboxPosition := 2\<rparr>) 0 [] KeysetValidate)
       \<lparr>cachedSequencerMessageNum := 1\<rparr>"
  by (subst Pop_fresh_header_only [where data = "header40 0 100 10 100 0" and h = "[]"])
     (simp_all add: NewInboxMultiplexer_def shrinkingBackend_def exampleBackend_def backend_defs
        parseHeader_header40 length_header40 advanceSequencerMsg_def advanceSubMsg_def Let_def
        word_le_nat_alt word_less_nat_alt)

theorem DelayedMessagesRead_decreases:
  "inboxMultiplexer_DelayedMessagesRead
     (afterPops exampleEnv 1 (NewInboxMultiplexer shrinkingBackend 0 [] KeysetValidate)) = 1
   \<and> inboxMultiplexer_DelayedMessagesRead
     (afterPops exampleEnv 2 (NewInboxMultiplexer shrinkingBackend 0 [] KeysetValidate)) = 0"
proof -
  have 1: "afterPops exampleEnv 1 (NewInboxMultiplexer shrinkingBackend 0 [] KeysetValidate)
         = NewInboxMultiplexer (shrinkingBackend\<lparr>sequencerInboxPosition := 1\<rparr>) 1 [] KeysetValidate"
    using shrinking_first_pop by simp
  have 2: "afterPops exampleEnv 2 (NewInboxMultiplexer shrinkingBackend 0 [] KeysetValidate)
         = (NewInboxMultiplexer (shrinkingBackend\<lparr>sequencerInboxPosition := 2\<rparr>) 0 [] KeysetValidate)
             \<lparr>cachedSequencerMessageNum := 1\<rparr>"
    using shrinking_first_pop shrinking_second_pop by (simp add: numeral_2_eq_2)
  show ?thesis
    unfolding 1 2 by (simp add: inboxMultiplexer_DelayedMessagesRead_def NewInboxMultiplexer_def)
qed

text \<open>With the batches announcing 1 and then 2 it goes from 0 to 2.\<close>

lemma growing_first_pop:
  "fst (Pop exampleEnv (NewInboxMultiplexer growingBackend 0 [] KeysetValidate)) =
     NewInboxMultiplexer (growingBackend\<lparr>sequencerInboxPosition := 1\<rparr>) 1 [] KeysetValidate"
  by (subst Pop_fresh_header_only [where data = "header40 0 100 10 100 1" and h = "[]"])
     (simp_all add: NewInboxMultiplexer_def growingBackend_def exampleBackend_def backend_defs
        parseHeader_header40 length_header40 advanceSequencerMsg_def advanceSubMsg_def Let_def
        word_le_nat_alt word_less_nat_alt)

lemma growing_second_pop:
  "fst (Pop exampleEnv (NewInboxMultiplexer (growingBackend\<lparr>sequencerInboxPosition := 1\<rparr>) 1 []
          KeysetValidate)) =
     (NewInboxMultiplexer (growingBackend\<lparr>sequencerInboxPosition := 2\<rparr>) 2 [] KeysetValidate)
       \<lparr>cachedSequencerMessageNum := 1\<rparr>"
  by (subst Pop_fresh_header_only [where data = "header40 0 100 10 100 2" and h = "[]"])
     (simp_all add: NewInboxMultiplexer_def growingBackend_def exampleBackend_def backend_defs
        parseHeader_header40 length_header40 advanceSequencerMsg_def advanceSubMsg_def Let_def
        word_le_nat_alt word_less_nat_alt)

theorem DelayedMessagesRead_monotone_witness:
  "batchesAhead exampleEnv 2 (NewInboxMultiplexer growingBackend 0 [] KeysetValidate)
   \<and> inboxMultiplexer_DelayedMessagesRead
       (afterPops exampleEnv 0 (NewInboxMultiplexer growingBackend 0 [] KeysetValidate)) = 0
   \<and> inboxMultiplexer_DelayedMessagesRead
       (afterPops exampleEnv 2 (NewInboxMultiplexer growingBackend 0 [] KeysetValidate)) = 2
   \<and> inboxMultiplexer_DelayedMessagesRead
       (afterPops exampleEnv 0 (NewInboxMultiplexer growingBackend 0 [] KeysetValidate))
     \<le> inboxMultiplexer_DelayedMessagesRead
       (afterPops exampleEnv 2 (NewInboxMultiplexer growingBackend 0 [] KeysetValidate))"
proof -
  let ?r0 = "NewInboxMultiplexer growingBackend 0 [] KeysetValidate"
  let ?r1 = "NewInboxMultiplexer (growingBackend\<lparr>sequencerInboxPosition := 1\<rparr>) 1 [] KeysetValidate"
  have b0: "currentBatch exampleEnv ?r0 = Some (parseHeader (header40 0 100 10 100 1))"
    by (rule currentBatch_fresh_header_only [where h = "[]"])
       (simp_all add: NewInboxMultiplexer_def growingBackend_def exampleBackend_def backend_defs
          length_header40)
  have b1: "currentBatch exampleEnv ?r1 = Some (parseHeader (header40 0 100 10 100 2))"
    by (rule currentBatch_fresh_header_only [where h = "[]"])
       (simp_all add: NewInboxMultiplexer_def growingBackend_def exampleBackend_def backend_defs
          length_header40)
  have d: "delayedMessagesRead ?r0 = 0" "delayedMessagesRead ?r1 = 1"
    by (simp_all add: NewInboxMultiplexer_def)
  have h1: "afterDelayedMessages (parseHeader (header40 0 100 10 100 1)) = 1"
    and h2: "afterDelayedMessages (parseHeader (header40 0 100 10 100 2)) = 2"
    by (simp_all add: parseHeader_header40)
  have ahead: "batchesAhead exampleEnv (Suc (Suc 0)) ?r0"
    unfolding batchesAhead.simps growing_first_pop b0 b1 option.case d h1 h2
    by (simp add: word_le_nat_alt)
  then have ahead: "batchesAhead exampleEnv 2 ?r0" by (simp only: numeral_2_eq_2)
  have a2: "afterPops exampleEnv 2 ?r0 =
      (NewInboxMultiplexer (growingBackend\<lparr>sequencerInboxPosition := 2\<rparr>) 2 [] KeysetValidate)
       \<lparr>cachedSequencerMessageNum := 1\<rparr>"
    using growing_first_pop growing_second_pop by (simp add: numeral_2_eq_2)
  have v0: "inboxMultiplexer_DelayedMessagesRead (afterPops exampleEnv 0 ?r0) = 0"
    by (simp add: inboxMultiplexer_DelayedMessagesRead_def NewInboxMultiplexer_def)
  have v2: "inboxMultiplexer_DelayedMessagesRead (afterPops exampleEnv 2 ?r0) = 2"
    unfolding a2 by (simp add: inboxMultiplexer_DelayedMessagesRead_def NewInboxMultiplexer_def)
  have le: "(0::nat) \<le> 2" "(2::nat) \<le> 2" by simp_all
  from DelayedMessagesRead_monotone [OF ahead le] ahead v0 v2
  show ?thesis by blast
qed

subsection \<open>Clamping of emitted L2 messages\<close>

lemma clamp_bounds:
  fixes x lo hi :: u64
  assumes "lo \<le> hi"
  shows "lo \<le> (if x < lo then lo else if hi < x then hi else x)"
    and "(if x < lo then lo else if hi < x then hi else x) \<le> hi"
  using assms by auto

text \<open>
  C6, as the code has it.  Let the batch header have \<open>minTimestamp \<le> maxTimestamp\<close>
  and \<open>minL1Block \<le> maxL1Block\<close> (the parser does not check this), and let
  \<open>getNextMsg\<close> return a message for a segment of kind L2Message or L2MessageBrotli.
  The message is an L2 message whose timestamp and block number lie within the bounds
  of the header.  They are the running values clamped to these bounds; the values
  stored in \<open>cachedSegmentTimestamp\<close> and \<open>cachedSegmentBlockNumber\<close> are the running
  values themselves, as the walk over the segments computed them, and the next call
  goes on from them.
\<close>

theorem getNextMsg_L2_clamped:
  assumes c: "cachedSequencerMessage r = Some seqMsg"
    and g: "getNextMsg E r = (r', (Some msg, err))"
    and inr: "cachedSegmentNum r' < of_nat (length (segments seqMsg))"
    and k: "hd (segments seqMsg ! unat (cachedSegmentNum r'))
              \<in> {BatchSegmentKindL2Message, BatchSegmentKindL2MessageBrotli}"
    and t: "minTimestamp seqMsg \<le> maxTimestamp seqMsg"
    and b: "minL1Block seqMsg \<le> maxL1Block seqMsg"
  shows "Kind (Header (Message msg)) = L1MessageType_L2Message E
     \<and> minTimestamp seqMsg \<le> Timestamp (Header (Message msg))
     \<and> Timestamp (Header (Message msg)) \<le> maxTimestamp seqMsg
     \<and> minL1Block seqMsg \<le> BlockNumber (Header (Message msg))
     \<and> BlockNumber (Header (Message msg)) \<le> maxL1Block seqMsg
     \<and> Timestamp (Header (Message msg)) =
           (if cachedSegmentTimestamp r' < minTimestamp seqMsg then minTimestamp seqMsg
            else if maxTimestamp seqMsg < cachedSegmentTimestamp r' then maxTimestamp seqMsg
            else cachedSegmentTimestamp r')
     \<and> BlockNumber (Header (Message msg)) =
           (if cachedSegmentBlockNumber r' < minL1Block seqMsg then minL1Block seqMsg
            else if maxL1Block seqMsg < cachedSegmentBlockNumber r' then maxL1Block seqMsg
            else cachedSegmentBlockNumber r')
     \<and> (cachedSegmentNum r', cachedSegmentTimestamp r', cachedSegmentBlockNumber r',
          cachedSubMessageNumber r') =
         walkSegments E (GetPositionWithinMessage (backend r)) (segments seqMsg) (cachedSegmentNum r)
           (cachedSegmentTimestamp r) (cachedSegmentBlockNumber r) (cachedSubMessageNumber r)"
proof -
  note cur = getNextMsg_cursor [OF c g]
  obtain n ts bn sub where w: "walkSegments E (GetPositionWithinMessage (backend r)) (segments seqMsg)
      (cachedSegmentNum r) (cachedSegmentTimestamp r) (cachedSegmentBlockNumber r)
      (cachedSubMessageNumber r) = (n, ts, bn, sub)"
    by (metis prod.exhaust)
  from cur w have st: "cachedSegmentNum r' = n" "cachedSegmentTimestamp r' = ts"
    "cachedSegmentBlockNumber r' = bn" "cachedSubMessageNumber r' = sub" by simp_all
  from inr st have nlt: "\<not> of_nat (length (segments seqMsg)) \<le> n" by (simp add: not_le)
  from k st have kind: "hd (segments seqMsg ! unat n) = BatchSegmentKindL2Message
      \<or> hd (segments seqMsg ! unat n) = BatchSegmentKindL2MessageBrotli" by simp
  have m: "Kind (Header (Message msg)) = L1MessageType_L2Message E
      \<and> Timestamp (Header (Message msg)) =
           (if ts < minTimestamp seqMsg then minTimestamp seqMsg
            else if maxTimestamp seqMsg < ts then maxTimestamp seqMsg else ts)
      \<and> BlockNumber (Header (Message msg)) =
           (if bn < minL1Block seqMsg then minL1Block seqMsg
            else if maxL1Block seqMsg < bn then maxL1Block seqMsg else bn)"
    using g c w nlt kind
    by (auto simp add: getNextMsg_def Let_def kind_defs split: if_splits option.splits)
  show ?thesis
    using m clamp_bounds [OF t, of ts] clamp_bounds [OF b, of bn] cur
    by (simp only: st)
qed


text \<open>
  In the advance-directive scenario the stored block number is 2 and the emitted one is
  10.
\<close>

theorem getNextMsg_L2_clamped_witness:
  "getNextMsg exampleEnv (exampleMux (exampleBatch 0 [[3, 5], [4, 2], [0, 120]]) 0) =
     ((exampleMux (exampleBatch 0 [[3, 5], [4, 2], [0, 120]]) 0)
        \<lparr>cachedSegmentNum := 2, cachedSegmentTimestamp := 5, cachedSegmentBlockNumber := 2,
         cachedSubMessageNumber := 0\<rparr>,
      (Some \<lparr>Message = \<lparr>Header = \<lparr>Kind = L1MessageType_L2Message exampleEnv,
                                    Poster = BatchPosterAddress exampleEnv,
                                    BlockNumber = 10, Timestamp = 5,
                                    RequestId = None, L1BaseFee = Some 0\<rparr>,
                         L2msg = [120]\<rparr>,
              DelayedMessagesRead = 0\<rparr>, None))
   \<and> minL1Block (exampleBatch 0 [[3, 5], [4, 2], [0, 120]]) \<le> 10
   \<and> 10 \<le> maxL1Block (exampleBatch 0 [[3, 5], [4, 2], [0, 120]])
   \<and> minTimestamp (exampleBatch 0 [[3, 5], [4, 2], [0, 120]]) \<le> 5
   \<and> 5 \<le> maxTimestamp (exampleBatch 0 [[3, 5], [4, 2], [0, 120]])"
proof -
  let ?b = "exampleBatch 0 [[3, 5], [4, 2], [0, 120]]"
  let ?q = "exampleMux ?b 0"
  let ?q2 = "?q\<lparr>cachedSegmentNum := 2, cachedSegmentTimestamp := 5, cachedSegmentBlockNumber := 2,
         cachedSubMessageNumber := 0\<rparr>"
  let ?m = "\<lparr>Message = \<lparr>Header = \<lparr>Kind = L1MessageType_L2Message exampleEnv,
                                    Poster = BatchPosterAddress exampleEnv,
                                    BlockNumber = 10, Timestamp = 5,
                                    RequestId = None, L1BaseFee = Some 0\<rparr>,
                         L2msg = [120]\<rparr>,
              DelayedMessagesRead = 0\<rparr>"
  have c: "cachedSequencerMessage ?q = Some ?b" by (simp add: exampleMux_simps)
  have g: "getNextMsg exampleEnv ?q = (?q2, (Some ?m, None))"
    using getNextMsg_advance_scenario [of ?q 0 exampleEnv]
    by (simp add: exampleMux_def exampleBatch_def NewInboxMultiplexer_def exampleBackend_def
          backend_defs exampleEnv_rlp)
  have inr: "cachedSegmentNum ?q2 < of_nat (length (segments ?b))"
    by (simp add: exampleBatch_def word_less_nat_alt)
  have k: "hd (segments ?b ! unat (cachedSegmentNum ?q2))
              \<in> {BatchSegmentKindL2Message, BatchSegmentKindL2MessageBrotli}"
    by (simp add: exampleBatch_def kind_defs)
  have t: "minTimestamp ?b \<le> maxTimestamp ?b" and b: "minL1Block ?b \<le> maxL1Block ?b"
    by (simp_all add: exampleBatch_def word_le_nat_alt)
  from getNextMsg_L2_clamped [OF c g inr k t b] g
  show ?thesis by simp
qed

text \<open>
  Without the condition on the header the bounds fail: the parser accepts a header with
  \<open>minTimestamp = 100\<close>, \<open>maxTimestamp = 50\<close>, \<open>minL1Block = 10\<close>, \<open>maxL1Block = 5\<close>,
  and the L2 message of that batch is emitted with timestamp 100 and block number 10,
  above the upper bounds.
\<close>

lemma parse_invertedBatch:
  "parseSequencerMessage exampleEnv n h invertedBatch [] mode = Inr invertedMessage"
  by (simp add: parseSequencerMessage_def parseStage1_def parseStage2_def parseStage3_def
      parseHeader_def Uint64_def invertedBatch_def invertedMessage_def header40_def exampleEnv_def
      Let_def MaxDecompressedLen_def MaxSegmentsPerSequencerMessage_def)

lemma walk_one_L2_segment:
  "walkSegments E 0 [[0, 120]] 0 0 0 0 = (0, 0, 0, 0)"
  by (subst walkSegments.simps) (simp add: kind_defs Let_def word_le_nat_alt)

theorem getNextMsg_L2_inverted_bounds:
  "parseSequencerMessage exampleEnv 0 [] invertedBatch [] KeysetValidate = Inr invertedMessage
   \<and> snd (getNextMsg exampleEnv (exampleMux invertedMessage 0)) =
       (Some \<lparr>Message = \<lparr>Header = \<lparr>Kind = L1MessageType_L2Message exampleEnv,
                                     Poster = BatchPosterAddress exampleEnv,
                                     BlockNumber = 10, Timestamp = 100,
                                     RequestId = None, L1BaseFee = Some 0\<rparr>,
                          L2msg = [120]\<rparr>,
               DelayedMessagesRead = 0\<rparr>, None)
   \<and> maxTimestamp invertedMessage < 100
   \<and> maxL1Block invertedMessage < 10"
proof -
  have g: "snd (getNextMsg exampleEnv (exampleMux invertedMessage 0)) =
       (Some \<lparr>Message = \<lparr>Header = \<lparr>Kind = L1MessageType_L2Message exampleEnv,
                                     Poster = BatchPosterAddress exampleEnv,
                                     BlockNumber = 10, Timestamp = 100,
                                     RequestId = None, L1BaseFee = Some 0\<rparr>,
                          L2msg = [120]\<rparr>,
               DelayedMessagesRead = 0\<rparr>, None)"
    by (simp add: getNextMsg_def exampleMux_def invertedMessage_def NewInboxMultiplexer_def
          exampleBackend_def backend_defs walk_one_L2_segment Let_def kind_defs
          word_le_nat_alt word_less_nat_alt)
  have b: "maxTimestamp invertedMessage < 100" "maxL1Block invertedMessage < 10"
    by (simp_all add: invertedMessage_def word_less_nat_alt)
  from parse_invertedBatch g b show ?thesis by simp
qed

section \<open>DAS batches whose certificate expires too soon\<close>

lemma RecoverPayloadFromDasBatch_expired:
  assumes len: "40 \<le> length sequencerMsg"
    and cert: "DeserializeDASCertFrom D (drop 40 sequencerMsg) = Some cert"
    and expired: "Timeout cert < Uint64 (take 8 (drop 8 sequencerMsg))
                                  + MinLifetimeSecondsForDataAvailabilityCert"
    and keyset: "getByHash D (Version cert) dasReader (KeysetHash cert) = Inr keysetPreimage"
    and nocrit: "mode = KeysetPanicIfInvalid \<longrightarrow>
                   DeserializeKeyset D keysetPreimage False \<noteq> None"
  shows "snd (RecoverPayloadFromDasBatch D batchNum sequencerMsg dasReader pre mode) = Inr None"
  using assms
  by (auto simp add: RecoverPayloadFromDasBatch_def Let_def not_less split: option.splits)

lemma parse_das_nil:
  assumes len: "40 < length data"
    and known: "IsKnownHeaderByte E (data ! 40)"
    and das: "IsDASMessageHeaderByte E (data ! 40)"
    and nil: "snd (RecoverPayloadFromDasBatch D batchNum data dasReader None mode) = Inr None"
  shows "parseSequencerMessage E batchNum h data (Some (dAProviderForDAS E D dasReader) # ps) mode
           = Inr (parseHeader data)"
  using len known das nil payload_first_byte [OF len]
  by (simp add: parseSequencerMessage_def parseStage1_def dAProviderForDAS_def Let_def)

lemma parseHeader_segments: "segments (parseHeader data) = []"
  by (simp add: parseHeader_def)

text \<open>
  C8, as the code has it.  Let the certificate of a DAS batch decode, let its timeout
  be below \<open>maxTimestamp + 604800\<close> (in 64-bit arithmetic), let the reader deliver the
  keyset preimage, and let the keyset decode when the mode is \<open>KeysetPanicIfInvalid\<close>.
  Then \<open>RecoverPayloadFromDasBatch\<close> returns nil without error, and the parser with the
  DAS provider first returns the header-only batch, with no segments.  A \<open>Pop\<close> on that
  batch returns the invalid message, and leaves the batch, when \<open>delayedMessagesRead\<close>
  has reached \<open>afterDelayedMessages\<close>; otherwise it reads the next delayed message from
  the backend and returns it (or the error of the backend), and leaves the batch when
  that was the last one announced.
\<close>

theorem das_expired_certificate:
  assumes len: "40 < length data"
    and known: "IsKnownHeaderByte E (data ! 40)"
    and das: "IsDASMessageHeaderByte E (data ! 40)"
    and cert: "DeserializeDASCertFrom D (drop 40 data) = Some cert"
    and expired: "Timeout cert < Uint64 (take 8 (drop 8 data))
                                  + MinLifetimeSecondsForDataAvailabilityCert"
    and keyset: "getByHash D (Version cert) dasReader (KeysetHash cert) = Inr keysetPreimage"
    and nocrit: "mode = KeysetPanicIfInvalid \<longrightarrow>
                   DeserializeKeyset D keysetPreimage False \<noteq> None"
  shows "snd (RecoverPayloadFromDasBatch D batchNum data dasReader pre mode) = Inr None
     \<and> parseSequencerMessage E batchNum h data (Some (dAProviderForDAS E D dasReader) # ps) mode
           = Inr (parseHeader data)
     \<and> segments (parseHeader data) = []
     \<and> (\<forall>r r1. fetchSequencerMessage E r = Inr r1
            \<and> cachedSequencerMessage r1 = Some (parseHeader data) \<and> cachedSegmentNum r1 = 0 \<longrightarrow>
          Pop E r =
            (if afterDelayedMessages (parseHeader data) \<le> delayedMessagesRead r1 then
               (advanceSequencerMsg r1,
                (Some \<lparr>Message = InvalidL1Message E,
                        DelayedMessagesRead = afterDelayedMessages (parseHeader data)\<rparr>, None))
             else
               (case ReadDelayedInbox (backend r1) (delayedMessagesRead r1) of
                  Inl realErr \<Rightarrow> (advanceSubMsg r1, (None, Some realErr))
                | Inr delayed \<Rightarrow>
                    (let r2 = r1\<lparr>delayedMessagesRead := delayedMessagesRead r1 + 1\<rparr>
                     in (if afterDelayedMessages (parseHeader data) \<le> delayedMessagesRead r1 + 1
                         then advanceSequencerMsg r2 else advanceSubMsg r2,
                         (Some \<lparr>Message = delayed,
                                 DelayedMessagesRead = delayedMessagesRead r1 + 1\<rparr>, None))))))"
proof -
  from len have len': "40 \<le> length data" by simp
  note nil = RecoverPayloadFromDasBatch_expired [OF len' cert expired keyset nocrit]
  have p: "parseSequencerMessage E batchNum h data (Some (dAProviderForDAS E D dasReader) # ps) mode
           = Inr (parseHeader data)"
    by (rule parse_das_nil [OF len known das nil])
  show ?thesis
    using nil [of batchNum pre] p parseHeader_segments
      Pop_header_only [where E = E and seqMsg = "parseHeader data", OF _ _ parseHeader_segments]
    by blast
qed

lemma expiredDasBatch_facts:
  "40 < length (expiredDasBatch a)" "40 \<le> length (expiredDasBatch a)"
  "expiredDasBatch a ! 40 = 0x80"
  "drop 40 (expiredDasBatch a) = [0x80, 1, 0]"
  "Uint64 (take 8 (drop 8 (expiredDasBatch a))) = 100"
  by (simp_all add: expiredDasBatch_def header40_def Uint64_def)

lemma expiredDasBatch_header:
  "parseHeader (expiredDasBatch a) =
     \<lparr>minTimestamp = 0, maxTimestamp = 100, minL1Block = 10, maxL1Block = 100,
      afterDelayedMessages = ucast a, segments = []\<rparr>"
  by (simp add: parseHeader_def expiredDasBatch_def header40_def Uint64_def)

lemma expiredDasBatch_cert:
  "DeserializeDASCertFrom exampleDasEnv (drop 40 (expiredDasBatch a)) = Some expiredCert"
  "Timeout expiredCert < Uint64 (take 8 (drop 8 (expiredDasBatch a)))
                           + MinLifetimeSecondsForDataAvailabilityCert"
  by (simp_all add: expiredDasBatch_facts exampleDasEnv_def expiredCert_def
        MinLifetimeSecondsForDataAvailabilityCert_def word_less_nat_alt)

lemma storingReader_keyset:
  "getByHash exampleDasEnv (Version expiredCert) storingReader (KeysetHash expiredCert) = Inr [1, 0]"
  by (simp add: getByHash_def exampleDasEnv_def expiredCert_def storingReader_def Let_def)

lemma exampleEnv_das_byte:
  "IsKnownHeaderByte exampleEnv 0x80" "IsDASMessageHeaderByte exampleEnv 0x80"
  by (simp_all add: exampleEnv_def)

theorem das_expired_certificate_witness:
  "snd (RecoverPayloadFromDasBatch exampleDasEnv 0 (expiredDasBatch 0) storingReader None
          KeysetValidate) = Inr None
   \<and> parseSequencerMessage exampleEnv 0 [] (expiredDasBatch 0)
         [Some (dAProviderForDAS exampleEnv exampleDasEnv storingReader)] KeysetValidate
       = Inr (parseHeader (expiredDasBatch 0))
   \<and> segments (parseHeader (expiredDasBatch 0)) = []"
proof -
  have nocrit: "KeysetValidate = KeysetPanicIfInvalid \<longrightarrow>
                   DeserializeKeyset exampleDasEnv [1, 0] False \<noteq> None" by simp
  from das_expired_certificate [where E = exampleEnv and D = exampleDasEnv
      and data = "expiredDasBatch 0" and cert = expiredCert and dasReader = storingReader
      and keysetPreimage = "[1, 0]" and mode = KeysetValidate and batchNum = 0 and h = "[]"
      and ps = "[]" and pre = None,
      OF expiredDasBatch_facts(1) _ _ expiredDasBatch_cert storingReader_keyset nocrit]
  show ?thesis
    by (simp add: expiredDasBatch_facts(3) exampleEnv_das_byte)
qed

text \<open>
  The claim fails twice on the expired certificate: with a reader that fails the
  recovery returns the reader's error, and when the batch announces a delayed message
  the first \<open>Pop\<close> returns that message, not the invalid message.
\<close>

lemma failingReader_keyset:
  "getByHash exampleDasEnv (Version expiredCert) failingReader (KeysetHash expiredCert)
     = Inl (ErrExternal ''unavailable'')"
  by (simp add: getByHash_def exampleDasEnv_def expiredCert_def failingReader_def Let_def)

lemma failingReader_recover:
  "snd (RecoverPayloadFromDasBatch exampleDasEnv 0 (expiredDasBatch 1) failingReader None
          KeysetValidate) = Inl (ErrExternal ''unavailable'')"
  using expiredDasBatch_cert(1) [of 1] failingReader_keyset
  by (simp add: RecoverPayloadFromDasBatch_def expiredDasBatch_facts Let_def expiredCert_def
        word_le_nat_alt not_less)

lemma expired_first_pop:
  "snd (Pop exampleEnv (NewInboxMultiplexer expiredDasBackend 0
          [Some (dAProviderForDAS exampleEnv exampleDasEnv storingReader)] KeysetValidate))
     = (Some \<lparr>Message = exampleDelayed 0, DelayedMessagesRead = 1\<rparr>, None)"
proof -
  let ?ps = "[Some (dAProviderForDAS exampleEnv exampleDasEnv storingReader)]"
  let ?r = "NewInboxMultiplexer expiredDasBackend 0 ?ps KeysetValidate"
  let ?r1 = "?r\<lparr>cachedSequencerMessageNum := GetSequencerInboxPosition (backend ?r),
                 cachedSequencerMessage := Some (parseHeader (expiredDasBatch 1))\<rparr>"
  have nocrit: "KeysetValidate = KeysetPanicIfInvalid \<longrightarrow>
                   DeserializeKeyset exampleDasEnv [1, 0] False \<noteq> None" by simp
  have nil: "snd (RecoverPayloadFromDasBatch exampleDasEnv 0 (expiredDasBatch 1) storingReader None
          KeysetValidate) = Inr None"
    by (rule RecoverPayloadFromDasBatch_expired
          [OF expiredDasBatch_facts(2) expiredDasBatch_cert storingReader_keyset nocrit])
  have p: "parseSequencerMessage exampleEnv 0 [] (expiredDasBatch 1) ?ps KeysetValidate
             = Inr (parseHeader (expiredDasBatch 1))"
    by (rule parse_das_nil [OF expiredDasBatch_facts(1) _ _ nil])
       (simp_all add: expiredDasBatch_facts(3) exampleEnv_das_byte)
  have f: "fetchSequencerMessage exampleEnv ?r = Inr ?r1"
    by (rule fetch_fresh [where data = "expiredDasBatch 1" and h = "[]"])
       (simp_all add: NewInboxMultiplexer_def expiredDasBackend_def exampleBackend_peek p)
  show ?thesis
    by (subst Pop_header_only [OF f, where seqMsg = "parseHeader (expiredDasBatch 1)"])
       (simp_all add: expiredDasBatch_header NewInboxMultiplexer_def expiredDasBackend_def
          exampleBackend_def backend_defs Let_def word_le_nat_alt word_less_nat_alt)
qed

theorem das_expired_error_and_delayed_message:
  "DeserializeDASCertFrom exampleDasEnv (drop 40 (expiredDasBatch 1)) = Some expiredCert
   \<and> Timeout expiredCert < Uint64 (take 8 (drop 8 (expiredDasBatch 1)))
                             + MinLifetimeSecondsForDataAvailabilityCert
   \<and> snd (RecoverPayloadFromDasBatch exampleDasEnv 0 (expiredDasBatch 1) failingReader None
            KeysetValidate) = Inl (ErrExternal ''unavailable'')
   \<and> fst (snd (Pop exampleEnv (NewInboxMultiplexer expiredDasBackend 0
            [Some (dAProviderForDAS exampleEnv exampleDasEnv storingReader)] KeysetValidate)))
       = Some \<lparr>Message = exampleDelayed 0, DelayedMessagesRead = 1\<rparr>
   \<and> exampleDelayed 0 \<noteq> InvalidL1Message exampleEnv"
proof -
  have "exampleDelayed 0 \<noteq> InvalidL1Message exampleEnv"
    by (simp add: exampleDelayed_def exampleEnv_def)
  then show ?thesis
    by (simp add: expiredDasBatch_cert failingReader_recover expired_first_pop)
qed

section \<open>The segment cap and the range of the cursor\<close>

text \<open>
  A parsed batch has at most \<open>MaxSegmentsPerSequencerMessage\<close> segments, and the walk of
  \<open>getNextMsg\<close> never moves the segment cursor beyond the number of segments.  So on
  every parsed batch the cursor stays far below \<open>2^63\<close>, the range in which the index
  of \<open>IsCachedSegementLast\<close> is computed without overflow.
\<close>

lemma fillSegments_length:
  "int (length (fillSegments segs items))
     \<le> max (int (length segs)) MaxSegmentsPerSequencerMessage"
  by (induction segs items rule: fillSegments.induct) (auto simp: MaxSegmentsPerSequencerMessage_def)

lemma parse_segment_cap:
  assumes "parseSequencerMessage E batchNum h data ps mode = Inr seqMsg"
  shows "int (length (segments seqMsg)) \<le> MaxSegmentsPerSequencerMessage"
proof -
  have hdr: "segments (parseHeader data) = []" by (rule parseHeader_segments)
  have s3: "\<And>p. int (length (segments (parseStage3 E (parseHeader data) p)))
                 \<le> MaxSegmentsPerSequencerMessage"
    using fillSegments_length [of "[]"]
    by (auto simp add: parseStage3_def hdr MaxSegmentsPerSequencerMessage_def split: option.splits)
  have s2: "\<And>p. int (length (segments (parseStage2 E (parseHeader data) p)))
                 \<le> MaxSegmentsPerSequencerMessage"
    using s3 by (auto simp add: parseStage2_def hdr MaxSegmentsPerSequencerMessage_def
        split: option.splits)
  show ?thesis
    using assms s2 hdr
    by (auto simp add: parseSequencerMessage_def parseStage1_def Let_def
        MaxSegmentsPerSequencerMessage_def split: if_splits sum.splits option.splits)
qed

lemma walkSegments_cursor:
  "n \<le> of_nat (length segs) \<Longrightarrow>
     fst (walkSegments E t segs n ts bn sub) \<le> of_nat (length segs)"
proof (induction E t segs n ts bn sub rule: walkSegments.induct)
  case (1 E t segs n ts bn sub)
  show ?case
  proof (cases "of_nat (length segs) \<le> n")
    case True
    then show ?thesis using "1.prems" by (subst walkSegments.simps) simp
  next
    case False
    then have "n < of_nat (length segs)" by simp
    then have nx: "n + 1 \<le> of_nat (length segs)" by (rule word_succ_le(2))
    show ?thesis
      using False "1.prems" "1.IH" nx
      by (subst walkSegments.simps) (auto simp add: Let_def split: option.splits)
  qed
qed

lemma getNextMsg_cursor_in_range:
  assumes c: "cachedSequencerMessage r = Some seqMsg" and g: "getNextMsg E r = (r', res)"
    and n: "cachedSegmentNum r \<le> of_nat (length (segments seqMsg))"
    and cap: "int (length (segments seqMsg)) \<le> MaxSegmentsPerSequencerMessage"
  shows "cachedSegmentNum r' \<le> of_nat (length (segments seqMsg))"
    and "unat (cachedSegmentNum r') < 2 ^ 63 - 1"
proof -
  have "cachedSegmentNum r' = fst (walkSegments E (GetPositionWithinMessage (backend r))
      (segments seqMsg) (cachedSegmentNum r) (cachedSegmentTimestamp r)
      (cachedSegmentBlockNumber r) (cachedSubMessageNumber r))"
    using getNextMsg_cursor [OF c g] by (metis fst_conv)
  then show le: "cachedSegmentNum r' \<le> of_nat (length (segments seqMsg))"
    using walkSegments_cursor [OF n] by simp
  from cap have "length (segments seqMsg) \<le> 102400"
    by (simp add: MaxSegmentsPerSequencerMessage_def)
  moreover have "unat (of_nat (length (segments seqMsg)) :: u64) \<le> length (segments seqMsg)"
    by (simp add: unat_of_nat)
  moreover from le have "unat (cachedSegmentNum r') \<le> unat (of_nat (length (segments seqMsg)) :: u64)"
    by (simp add: word_le_nat_alt)
  ultimately show "unat (cachedSegmentNum r') < 2 ^ 63 - 1" by simp
qed

end
